theory Spec2Isabelle
  imports Complex_Main "HOL-Library.Multiset"
begin

section \<open>Numbers and vectors\<close>

text \<open>
  JavaScript numbers are modelled as mathematical reals: NaN and the infinities of IEEE
  doubles are outside the model, and so is rounding, except in the projectile tick in
  double arithmetic below, where it is a parameter. The one place where the source stores
  \<^verbatim>\<open>Infinity\<close> (the running minimum of the impact query) is modelled by
  \<open>real option\<close>, with \<open>None\<close> for \<^verbatim>\<open>Infinity\<close>. Counters that only ever hold
  non-negative integers (wave number, maxActive, array indices) are \<open>nat\<close>.

  The vector operations are those of the three.js \<^verbatim>\<open>Vector3\<close> class, which the
  repository imports: \<^verbatim>\<open>distanceToSquared\<close>, \<^verbatim>\<open>addScaledVector\<close>, \<^verbatim>\<open>subVectors\<close>,
  \<^verbatim>\<open>length\<close> and \<^verbatim>\<open>normalize\<close> (which divides by \<^verbatim>\<open>length() || 1\<close>).
\<close>

datatype vector3 = Vector3 (vx: real) (vy: real) (vz: real)

definition distanceToSquared :: "vector3 \<Rightarrow> vector3 \<Rightarrow> real" where
  "distanceToSquared a b =
     (vx a - vx b) * (vx a - vx b) + (vy a - vy b) * (vy a - vy b) + (vz a - vz b) * (vz a - vz b)"

definition addScaledVector :: "vector3 \<Rightarrow> vector3 \<Rightarrow> real \<Rightarrow> vector3" where
  "addScaledVector a v s = Vector3 (vx a + vx v * s) (vy a + vy v * s) (vz a + vz v * s)"

definition subVectors :: "vector3 \<Rightarrow> vector3 \<Rightarrow> vector3" where
  "subVectors a b = Vector3 (vx a - vx b) (vy a - vy b) (vz a - vz b)"

definition vlength :: "vector3 \<Rightarrow> real" where
  "vlength a = sqrt (vx a * vx a + vy a * vy a + vz a * vz a)"

definition normalize :: "vector3 \<Rightarrow> vector3" where
  "normalize a =
     (let l = (if vlength a = 0 then 1 else vlength a)
      in Vector3 (vx a / l) (vy a / l) (vz a / l))"

section \<open>Enemy\<close>

datatype enemy_type = Grunt | Runner | Brute

text \<open>The \<^verbatim>\<open>config\<close> object of an enemy: one of the manager's definitions.\<close>

record enemy_config =
  cfg_id :: enemy_type
  maxHealth :: real
  cfg_speed :: real
  cfg_damage :: real
  cfg_reward :: real
  attackRange :: real
  attackCooldown :: real
  scale :: real

text \<open>
  The gameplay fields of the \<^verbatim>\<open>Enemy\<close> class. The scene graph, the animation mixer and
  the orientation quaternion belong to the rendering layer and are left out.
\<close>

record enemy =
  config :: enemy_config
  group_position :: vector3
  health :: real
  isAlive :: bool
  timeSinceLastAttack :: real
  boundingRadius :: real

text \<open>The constructor: full health, alive, radius \<^verbatim>\<open>1.2 * scale\<close>.\<close>

definition new_Enemy :: "enemy_config \<Rightarrow> vector3 \<Rightarrow> enemy" where
  "new_Enemy c spawnPosition =
     \<lparr> config = c, group_position = spawnPosition, health = maxHealth c, isAlive = True,
       timeSinceLastAttack = 0, boundingRadius = 12 / 10 * scale c \<rparr>"

text \<open>\<^verbatim>\<open>takeDamage(amount)\<close> returns the fatal flag together with the mutated enemy.\<close>

definition takeDamage :: "enemy \<Rightarrow> real \<Rightarrow> bool \<times> enemy" where
  "takeDamage e amount =
     (if \<not> isAlive e then (False, e)
      else let e1 = e\<lparr>health := health e - amount\<rparr>
           in if health e1 \<le> 0 then (True, e1\<lparr>health := 0, isAlive := False\<rparr>)
              else (False, e1))"

text \<open>
  \<^verbatim>\<open>Enemy.update(delta, {playerPosition, onAttack})\<close>. The result carries the enemy and
  whether \<^verbatim>\<open>onAttack\<close> was invoked. A dead enemy only advances its animation; a missing
  player position returns early.
\<close>

definition Enemy_update :: "real \<Rightarrow> vector3 option \<Rightarrow> enemy \<Rightarrow> enemy \<times> bool" where
  "Enemy_update dt playerPosition e =
     (if \<not> isAlive e then (e, False)
      else case playerPosition of
        None \<Rightarrow> (e, False)
      | Some pp \<Rightarrow>
          let e1 = e\<lparr>timeSinceLastAttack := timeSinceLastAttack e + dt\<rparr>;
              d0 = subVectors pp (group_position e1);
              distance = vlength d0;
              d1 = (if distance > 1 / 10000 then normalize d0 else d0)
          in if distance > attackRange (config e1)
             then (e1\<lparr>group_position :=
                        addScaledVector (group_position e1) d1 (cfg_speed (config e1) * dt)\<rparr>, False)
             else if timeSinceLastAttack e1 \<ge> attackCooldown (config e1)
                  then (e1\<lparr>timeSinceLastAttack := 0\<rparr>, True)
                  else (e1, False))"

section \<open>Projectile\<close>

text \<open>
  The motion fields of a projectile object of \<^verbatim>\<open>ProjectileSystem\<close>; the mesh is left to
  the rendering layer.
\<close>

record projectile =
  position :: vector3
  direction :: vector3
  speed :: real
  damage :: real
  maxDistance :: real
  distanceTravelled :: real
  timeToLive :: real
  active :: bool

section \<open>EnemyManager\<close>

record enemy_entry =
  enemy :: enemy
  deathTimer :: real

text \<open>
  The fields of \<^verbatim>\<open>EnemyManager\<close>. \<^verbatim>\<open>spawnEnemy\<close> is an async function: it constructs the
  enemy at once, awaits \<^verbatim>\<open>enemy.init()\<close> and pushes the roster entry only when that
  promise settles, after the tick that called it. \<open>pendingSpawns\<close> holds the enemies of
  the calls that have not resumed yet; it is the only field without a counterpart in
  the class.
\<close>

record enemy_manager =
  enemyEntries :: "enemy_entry list"
  elapsed :: real
  spawnTimer :: real
  wave :: nat
  spawnInterval :: real
  maxActive :: nat
  spawnRadius :: real
  spawnQueue :: "enemy_type list"
  waveInProgress :: bool
  pendingSpawns :: "enemy list"

definition DEFAULT_SPAWN_INTERVAL :: real where
  "DEFAULT_SPAWN_INTERVAL = 32 / 10"

definition DEFAULT_MAX_ACTIVE :: nat where
  "DEFAULT_MAX_ACTIVE = 8"

definition DEATH_CLEANUP_DELAY :: real where
  "DEATH_CLEANUP_DELAY = 18 / 10"

fun enemyDefinitions :: "enemy_type \<Rightarrow> enemy_config" where
  "enemyDefinitions Grunt =
     \<lparr> cfg_id = Grunt, maxHealth = 60, cfg_speed = 55 / 10, cfg_damage = 10, cfg_reward = 60,
       attackRange = 19 / 10, attackCooldown = 14 / 10, scale = 105 / 100 \<rparr>"
| "enemyDefinitions Runner =
     \<lparr> cfg_id = Runner, maxHealth = 40, cfg_speed = 85 / 10, cfg_damage = 8, cfg_reward = 80,
       attackRange = 16 / 10, attackCooldown = 1, scale = 95 / 100 \<rparr>"
| "enemyDefinitions Brute =
     \<lparr> cfg_id = Brute, maxHealth = 140, cfg_speed = 36 / 10, cfg_damage = 18, cfg_reward = 150,
       attackRange = 26 / 10, attackCooldown = 22 / 10, scale = 135 / 100 \<rparr>"

definition new_EnemyManager :: enemy_manager where
  "new_EnemyManager =
     \<lparr> enemyEntries = [], elapsed = 0, spawnTimer = 0, wave = 1,
       spawnInterval = DEFAULT_SPAWN_INTERVAL, maxActive = DEFAULT_MAX_ACTIVE,
       spawnRadius = 28, spawnQueue = [], waveInProgress = False, pendingSpawns = [] \<rparr>"

subsection \<open>Spawning an enemy\<close>

text \<open>
  The synchronous part of \<^verbatim>\<open>spawnEnemy(type, spawnPosition)\<close>, up to the \<^verbatim>\<open>await\<close>. Every
  token of \<open>enemy_type\<close> has a definition, so the unknown-type branch has no input here.
\<close>

definition spawnEnemy :: "enemy_type \<Rightarrow> vector3 \<Rightarrow> enemy_manager \<Rightarrow> enemy_manager" where
  "spawnEnemy ty spawnPosition m =
     m\<lparr>pendingSpawns := pendingSpawns m @ [new_Enemy (enemyDefinitions ty) spawnPosition]\<rparr>"

text \<open>
  The continuation of the \<open>k\<close>-th pending call after \<^verbatim>\<open>await enemy.init()\<close>. When the
  model was loaded, \<^verbatim>\<open>init\<close> has set the radius to \<^verbatim>\<open>max(size.x, size.z) * 0.35\<close> from the
  model's bounding box (\<open>Some (sx, sz)\<close>); when loading failed the constructor's radius
  stays (\<open>None\<close>).
\<close>

definition spawnEnemy_resume :: "nat \<Rightarrow> (real \<times> real) option \<Rightarrow> enemy_manager \<Rightarrow> enemy_manager" where
  "spawnEnemy_resume k loaded m =
     (if k < length (pendingSpawns m) then
        let e = pendingSpawns m ! k;
            e1 = (case loaded of
                    None \<Rightarrow> e
                  | Some (sx, sz) \<Rightarrow> e\<lparr>boundingRadius := max sx sz * (35 / 100)\<rparr>)
        in m\<lparr>pendingSpawns := take k (pendingSpawns m) @ drop (Suc k) (pendingSpawns m),
              enemyEntries := enemyEntries m @ [\<lparr> enemy = e1, deathTimer = 0 \<rparr>]\<rparr>
      else m)"

subsection \<open>The impact query\<close>

text \<open>
  The \<^verbatim>\<open>forEach\<close> of \<^verbatim>\<open>handleProjectileImpact\<close>, with its two captured variables
  \<^verbatim>\<open>hitEnemy\<close> (the roster index stands for the object reference) and \<^verbatim>\<open>minDistance\<close>
  (\<open>None\<close> is \<^verbatim>\<open>Infinity\<close>). \<open>i\<close> is the index of the head of the list.
\<close>

fun below :: "real \<Rightarrow> real option \<Rightarrow> bool" where
  "below d None = True"
| "below d (Some m) = (d < m)"

fun impact_scan ::
  "vector3 \<Rightarrow> enemy_entry list \<Rightarrow> nat \<Rightarrow> nat option \<times> real option \<Rightarrow> nat option \<times> real option"
where
  "impact_scan p [] i acc = acc"
| "impact_scan p (en # rest) i (hitEnemy, minDistance) =
     (if \<not> isAlive (enemy en) then impact_scan p rest (Suc i) (hitEnemy, minDistance)
      else let distance = distanceToSquared (group_position (enemy en)) p
           in if distance \<le> boundingRadius (enemy en) * boundingRadius (enemy en)
              then if below distance minDistance
                   then impact_scan p rest (Suc i) (Some i, Some distance)
                   else impact_scan p rest (Suc i) (hitEnemy, minDistance)
              else impact_scan p rest (Suc i) (hitEnemy, minDistance))"

text \<open>The result object of the query; \<open>imp_enemy\<close> is the roster index of the enemy hit.\<close>

record impact =
  imp_enemy :: nat
  wasFatal :: bool
  imp_reward :: real
  imp_damage :: real

definition handleProjectileImpact ::
  "enemy_manager \<Rightarrow> projectile \<Rightarrow> real \<Rightarrow> impact option \<times> enemy_manager" where
  "handleProjectileImpact m pr dmg =
     (case fst (impact_scan (position pr) (enemyEntries m) 0 (None, None)) of
        None \<Rightarrow> (None, m)
      | Some i \<Rightarrow>
          let hitEnemy = enemy (enemyEntries m ! i);
              (fatal, e1) = takeDamage hitEnemy dmg
          in (Some \<lparr> imp_enemy = i, wasFatal = fatal,
                      imp_reward = (if fatal then cfg_reward (config e1) else 0),
                      imp_damage = dmg \<rparr>,
              m\<lparr>enemyEntries := (enemyEntries m)[i := (enemyEntries m ! i)\<lparr>enemy := e1\<rparr>]\<rparr>))"

definition getAliveEnemies :: "enemy_manager \<Rightarrow> enemy list" where
  "getAliveEnemies m = map enemy (filter (\<lambda>en. isAlive (enemy en)) (enemyEntries m))"

definition reset :: "enemy_manager \<Rightarrow> enemy_manager" where
  "reset m = m\<lparr>enemyEntries := [], spawnQueue := [], wave := 1, spawnTimer := 0,
               waveInProgress := False\<rparr>"

subsection \<open>Wave composition\<close>

text \<open>A counted \<^verbatim>\<open>for\<close> loop of pushes.\<close>

fun push_times :: "nat \<Rightarrow> 'a \<Rightarrow> 'a list \<Rightarrow> 'a list" where
  "push_times 0 t composition = composition"
| "push_times (Suc n) t composition = push_times n t (composition @ [t])"

text \<open>The composition array before it is shuffled.\<close>

definition wave_composition :: "nat \<Rightarrow> enemy_type list" where
  "wave_composition w =
     (let baseCount = 5 + w * 2;
          c1 = push_times baseCount Grunt [];
          c2 = (if w \<ge> 3 then push_times (w div 2) Runner c1 else c1);
          c3 = (if w mod 4 = 0 then push_times (1 + w div 6) Brute c2 else c2)
      in c3)"

text \<open>
  \<^verbatim>\<open>composition.sort(() => Math.random() - 0.5)\<close> rearranges the array in an order that
  depends on the random draws and on the engine's sorting algorithm. The outcome is the
  parameter \<open>shuffle\<close>; \<open>is_shuffle\<close> says that it only rearranges.
\<close>

definition is_shuffle :: "(enemy_type list \<Rightarrow> enemy_type list) \<Rightarrow> bool" where
  "is_shuffle shuffle = (\<forall>c. mset (shuffle c) = mset c)"

definition enqueueWaveComposition ::
  "(enemy_type list \<Rightarrow> enemy_type list) \<Rightarrow> enemy_manager \<Rightarrow> enemy_manager" where
  "enqueueWaveComposition shuffle m =
     m\<lparr>spawnQueue := spawnQueue m @ shuffle (wave_composition (wave m))\<rparr>"

definition maybeScheduleNewWave ::
  "(enemy_type list \<Rightarrow> enemy_type list) \<Rightarrow> enemy_manager \<Rightarrow> enemy_manager" where
  "maybeScheduleNewWave shuffle m =
     (if waveInProgress m then m
      else if length (enemyEntries m) = 0 \<and> length (spawnQueue m) = 0
           then let m1 = enqueueWaveComposition shuffle (m\<lparr>waveInProgress := True\<rparr>)
                in m1\<lparr>spawnTimer := spawnInterval m1\<rparr>
           else m)"

subsection \<open>Spawn gate\<close>

definition countActiveEnemies :: "enemy_manager \<Rightarrow> nat" where
  "countActiveEnemies m =
     foldl (\<lambda>count entry. count + (if isAlive (enemy entry) then 1 else 0)) 0 (enemyEntries m)"

text \<open>
  The two spawn positions; the components of \<open>rnd\<close> are the two draws of
  \<^verbatim>\<open>Math.random()\<close>, for the angle and for the distance.
\<close>

definition getRandomSpawnPosition :: "real \<times> real \<Rightarrow> enemy_manager \<Rightarrow> vector3" where
  "getRandomSpawnPosition rnd m =
     (let angle = fst rnd * pi * 2;
          distance = spawnRadius m + snd rnd * 12
      in Vector3 (cos angle * distance) 0 (sin angle * distance))"

definition getSpawnPositionRelativeTo ::
  "vector3 option \<Rightarrow> real \<times> real \<Rightarrow> enemy_manager \<Rightarrow> vector3" where
  "getSpawnPositionRelativeTo playerPosition rnd m =
     (case playerPosition of
        None \<Rightarrow> getRandomSpawnPosition rnd m
      | Some pp \<Rightarrow>
          let angle = fst rnd * pi * 2;
              distance = spawnRadius m + snd rnd * 10
          in Vector3 (cos angle * distance + vx pp) (0 + vy pp) (sin angle * distance + vz pp))"

definition handleSpawning ::
  "vector3 option \<Rightarrow> real \<times> real \<Rightarrow> enemy_manager \<Rightarrow> enemy_manager" where
  "handleSpawning playerPosition rnd m =
     (if \<not> waveInProgress m \<or> length (spawnQueue m) = 0 then m
      else if spawnTimer m < spawnInterval m then m
      else if countActiveEnemies m \<ge> maxActive m then m
      else let nextType = hd (spawnQueue m);
               m1 = m\<lparr>spawnTimer := 0, spawnQueue := tl (spawnQueue m)\<rparr>;
               m2 = spawnEnemy nextType (getSpawnPositionRelativeTo playerPosition rnd m1) m1
           in if length (spawnQueue m2) = 0
              then m2\<lparr>wave := wave m2 + 1, waveInProgress := False,
                       spawnInterval := max (9 / 10) (spawnInterval m2 * (92 / 100)),
                       maxActive := min 24 (maxActive m2 + 1)\<rparr>
              else m2)"

subsection \<open>The manager's tick\<close>

datatype js_error = TypeError

text \<open>
  The roster loop of \<^verbatim>\<open>update\<close>: \<open>update_entries dt pp n\<close> runs the iterations
  \<open>i = n - 1, \<dots>, 0\<close>. Reading \<^verbatim>\<open>entry.enemy\<close> at an index past the end of the array
  throws. Every entry is pushed with its enemy, so the \<^verbatim>\<open>!enemy\<close> branch has no input.
  The second component collects the damage values handed to \<^verbatim>\<open>onPlayerDamaged\<close>.
\<close>

fun update_entries ::
  "real \<Rightarrow> vector3 option \<Rightarrow> nat \<Rightarrow> enemy_entry list \<times> real list
   \<Rightarrow> js_error + (enemy_entry list \<times> real list)"
where
  "update_entries dt pp 0 st = Inr st"
| "update_entries dt pp (Suc i) (es, attacks) =
     (if i < length es then
        let entry = es ! i
        in if isAlive (enemy entry) then
             let r = Enemy_update dt pp (enemy entry)
             in update_entries dt pp i
                  (es[i := entry\<lparr>enemy := fst r\<rparr>],
                   if snd r then attacks @ [cfg_damage (config (fst r))] else attacks)
           else
             let entry1 = entry\<lparr>deathTimer := deathTimer entry + dt\<rparr>
             in if deathTimer entry1 \<ge> DEATH_CLEANUP_DELAY
                then update_entries dt pp i (take i es @ drop (Suc i) es, attacks)
                else update_entries dt pp i (es[i := entry1], attacks)
      else Inl TypeError)"

definition update ::
  "real \<Rightarrow> vector3 option \<Rightarrow> real \<times> real \<Rightarrow> (enemy_type list \<Rightarrow> enemy_type list)
   \<Rightarrow> enemy_manager \<Rightarrow> js_error + (enemy_manager \<times> real list)" where
  "update dt playerPosition rnd shuffle m =
     (let m1 = m\<lparr>elapsed := elapsed m + dt, spawnTimer := spawnTimer m + dt\<rparr>;
          m2 = maybeScheduleNewWave shuffle m1;
          m3 = handleSpawning playerPosition rnd m2
      in case update_entries dt playerPosition (length (enemyEntries m3)) (enemyEntries m3, []) of
           Inl err \<Rightarrow> Inl err
         | Inr (es, attacks) \<Rightarrow> Inr (m3\<lparr>enemyEntries := es\<rparr>, attacks))"

section \<open>ProjectileSystem\<close>

definition DEFAULT_PROJECTILE_LIFETIME :: real where
  "DEFAULT_PROJECTILE_LIFETIME = 25 / 10"

record projectile_system =
  projectiles :: "projectile list"
  pool :: "projectile list"

definition new_ProjectileSystem :: projectile_system where
  "new_ProjectileSystem = \<lparr> projectiles = [], pool = [] \<rparr>"

text \<open>
  The argument object of \<^verbatim>\<open>spawnProjectile\<close>; \<open>sp_maxDistance = None\<close> is an omitted
  \<^verbatim>\<open>maxDistance\<close>, which defaults to 60. The colour only reaches the mesh.
\<close>

record spawn_args =
  sp_position :: vector3
  sp_direction :: vector3
  sp_speed :: real
  sp_damage :: real
  sp_maxDistance :: "real option"

text \<open>\<^verbatim>\<open>_getProjectile\<close>: pop the pool, or build a new object.\<close>

definition getProjectile :: "projectile_system \<Rightarrow> projectile \<times> projectile_system" where
  "getProjectile ps =
     (if length (pool ps) > 0 then (last (pool ps), ps\<lparr>pool := butlast (pool ps)\<rparr>)
      else (\<lparr> position = Vector3 0 0 0, direction = Vector3 0 0 1, speed = 40, damage = 10,
               maxDistance = 50, distanceTravelled = 0,
               timeToLive = DEFAULT_PROJECTILE_LIFETIME, active = False \<rparr>, ps))"

definition spawnProjectile :: "spawn_args \<Rightarrow> projectile_system \<Rightarrow> projectile \<times> projectile_system" where
  "spawnProjectile args ps =
     (let (p, ps1) = getProjectile ps;
          p1 = p\<lparr>position := sp_position args,
                 direction := normalize (sp_direction args),
                 speed := sp_speed args,
                 damage := sp_damage args,
                 maxDistance := (case sp_maxDistance args of None \<Rightarrow> 60 | Some d \<Rightarrow> d),
                 distanceTravelled := 0,
                 timeToLive := DEFAULT_PROJECTILE_LIFETIME,
                 active := True\<rparr>
      in (p1, ps1\<lparr>projectiles := projectiles ps1 @ [p1]\<rparr>))"

text \<open>\<^verbatim>\<open>_deactivateProjectileAtIndex\<close>; an index past the end finds no projectile and returns.\<close>

definition deactivateProjectileAtIndex :: "nat \<Rightarrow> projectile_system \<Rightarrow> projectile_system" where
  "deactivateProjectileAtIndex index ps =
     (if index < length (projectiles ps) then
        let p = (projectiles ps ! index)\<lparr>active := False, distanceTravelled := 0, timeToLive := 0\<rparr>
        in ps\<lparr>projectiles := take index (projectiles ps) @ drop (Suc index) (projectiles ps),
               pool := pool ps @ [p]\<rparr>
      else ps)"

text \<open>
  The body of the loop of \<^verbatim>\<open>update\<close> for the projectile at index \<open>i\<close>. The state is the
  system, the enemy manager passed to \<^verbatim>\<open>update\<close> (\<open>None\<close> when the caller has none, so
  that \<^verbatim>\<open>enemyManager?.handleProjectileImpact\<close> yields undefined) and the impacts handed
  to \<^verbatim>\<open>callbacks.onEnemyHit\<close> so far.
\<close>

fun projectile_iteration ::
  "real \<Rightarrow> nat \<Rightarrow> projectile_system \<times> enemy_manager option \<times> impact list
   \<Rightarrow> projectile_system \<times> enemy_manager option \<times> impact list" where
  "projectile_iteration dt i (ps, mgr, hits) =
     (let p = projectiles ps ! i
      in if \<not> active p then (deactivateProjectileAtIndex i ps, mgr, hits)
         else
           let travelDistance = speed p * dt;
               p1 = p\<lparr>position := addScaledVector (position p) (direction p) travelDistance,
                      distanceTravelled := distanceTravelled p + travelDistance,
                      timeToLive := timeToLive p - dt\<rparr>;
               ps1 = ps\<lparr>projectiles := (projectiles ps)[i := p1]\<rparr>
           in if distanceTravelled p1 \<ge> maxDistance p1 \<or> timeToLive p1 \<le> 0
              then (deactivateProjectileAtIndex i ps1, mgr, hits)
              else (case mgr of
                      None \<Rightarrow> (ps1, None, hits)
                    | Some m \<Rightarrow>
                        let r = handleProjectileImpact m p1 (damage p1)
                        in (case fst r of
                              None \<Rightarrow> (ps1, Some (snd r), hits)
                            | Some imp \<Rightarrow>
                                (deactivateProjectileAtIndex i ps1, Some (snd r), hits @ [imp]))))"

text \<open>
  The loop: \<open>update_projectiles dt n\<close> runs the iterations \<open>i = n - 1, \<dots>, 0\<close>. Reading
  \<^verbatim>\<open>projectile.active\<close> at an index past the end of the array throws.
\<close>

fun update_projectiles ::
  "real \<Rightarrow> nat \<Rightarrow> projectile_system \<times> enemy_manager option \<times> impact list
   \<Rightarrow> js_error + (projectile_system \<times> enemy_manager option \<times> impact list)"
where
  "update_projectiles dt 0 st = Inr st"
| "update_projectiles dt (Suc i) st =
     (if i < length (projectiles (fst st))
      then update_projectiles dt i (projectile_iteration dt i st)
      else Inl TypeError)"

definition ProjectileSystem_update ::
  "real \<Rightarrow> enemy_manager option \<Rightarrow> projectile_system
   \<Rightarrow> js_error + (projectile_system \<times> enemy_manager option \<times> impact list)" where
  "ProjectileSystem_update dt enemyManager ps =
     update_projectiles dt (length (projectiles ps)) (ps, enemyManager, [])"

subsection \<open>Histories of the projectile system\<close>

text \<open>
  The two calls of the orchestrator, a spawn and a tick; each tick comes with the enemy
  manager as it is at that moment.
\<close>

datatype projectile_op = Spawn spawn_args | Tick real "enemy_manager option"

fun exec_projectile_op :: "projectile_op \<Rightarrow> projectile_system \<Rightarrow> js_error + projectile_system" where
  "exec_projectile_op (Spawn args) ps = Inr (snd (spawnProjectile args ps))"
| "exec_projectile_op (Tick dt mgr) ps =
     (case ProjectileSystem_update dt mgr ps of Inl err \<Rightarrow> Inl err | Inr st \<Rightarrow> Inr (fst st))"

fun run_projectiles :: "projectile_op list \<Rightarrow> projectile_system \<Rightarrow> js_error + projectile_system" where
  "run_projectiles [] ps = Inr ps"
| "run_projectiles (opn # ops) ps =
     (case exec_projectile_op opn ps of Inl err \<Rightarrow> Inl err | Inr ps1 \<Rightarrow> run_projectiles ops ps1)"

subsection \<open>The tick in double arithmetic\<close>

text \<open>
  The same loop with the rounding of JavaScript's doubles made explicit: \<open>fl\<close> is applied
  to the exact result of every multiplication, addition and subtraction of the loop body
  (\<^verbatim>\<open>speed * delta\<close>, the three components of \<^verbatim>\<open>addScaledVector\<close>, \<^verbatim>\<open>distanceTravelled +=\<close>
  and \<^verbatim>\<open>timeToLive -=\<close>); the comparisons are exact. With \<open>fl\<close> the identity this is
  \<open>projectile_iteration\<close>. The impact query keeps its exact arithmetic; on an empty
  roster it performs none.
\<close>

definition addScaledVector_fl :: "(real \<Rightarrow> real) \<Rightarrow> vector3 \<Rightarrow> vector3 \<Rightarrow> real \<Rightarrow> vector3" where
  "addScaledVector_fl fl a v s =
     Vector3 (fl (vx a + fl (vx v * s))) (fl (vy a + fl (vy v * s))) (fl (vz a + fl (vz v * s)))"

fun projectile_iteration_fl ::
  "(real \<Rightarrow> real) \<Rightarrow> real \<Rightarrow> nat \<Rightarrow> projectile_system \<times> enemy_manager option \<times> impact list
   \<Rightarrow> projectile_system \<times> enemy_manager option \<times> impact list" where
  "projectile_iteration_fl fl dt i (ps, mgr, hits) =
     (let p = projectiles ps ! i
      in if \<not> active p then (deactivateProjectileAtIndex i ps, mgr, hits)
         else
           let travelDistance = fl (speed p * dt);
               p1 = p\<lparr>position := addScaledVector_fl fl (position p) (direction p) travelDistance,
                      distanceTravelled := fl (distanceTravelled p + travelDistance),
                      timeToLive := fl (timeToLive p - dt)\<rparr>;
               ps1 = ps\<lparr>projectiles := (projectiles ps)[i := p1]\<rparr>
           in if distanceTravelled p1 \<ge> maxDistance p1 \<or> timeToLive p1 \<le> 0
              then (deactivateProjectileAtIndex i ps1, mgr, hits)
              else (case mgr of
                      None \<Rightarrow> (ps1, None, hits)
                    | Some m \<Rightarrow>
                        let r = handleProjectileImpact m p1 (damage p1)
                        in (case fst r of
                              None \<Rightarrow> (ps1, Some (snd r), hits)
                            | Some imp \<Rightarrow>
                                (deactivateProjectileAtIndex i ps1, Some (snd r), hits @ [imp]))))"

fun update_projectiles_fl ::
  "(real \<Rightarrow> real) \<Rightarrow> real \<Rightarrow> nat \<Rightarrow> projectile_system \<times> enemy_manager option \<times> impact list
   \<Rightarrow> js_error + (projectile_system \<times> enemy_manager option \<times> impact list)"
where
  "update_projectiles_fl fl dt 0 st = Inr st"
| "update_projectiles_fl fl dt (Suc i) st =
     (if i < length (projectiles (fst st))
      then update_projectiles_fl fl dt i (projectile_iteration_fl fl dt i st)
      else Inl TypeError)"

definition ProjectileSystem_update_fl ::
  "(real \<Rightarrow> real) \<Rightarrow> real \<Rightarrow> enemy_manager option \<Rightarrow> projectile_system
   \<Rightarrow> js_error + (projectile_system \<times> enemy_manager option \<times> impact list)" where
  "ProjectileSystem_update_fl fl dt enemyManager ps =
     update_projectiles_fl fl dt (length (projectiles ps)) (ps, enemyManager, [])"

fun exec_projectile_op_fl ::
  "(real \<Rightarrow> real) \<Rightarrow> projectile_op \<Rightarrow> projectile_system \<Rightarrow> js_error + projectile_system" where
  "exec_projectile_op_fl fl (Spawn args) ps = Inr (snd (spawnProjectile args ps))"
| "exec_projectile_op_fl fl (Tick dt mgr) ps =
     (case ProjectileSystem_update_fl fl dt mgr ps of Inl err \<Rightarrow> Inl err | Inr st \<Rightarrow> Inr (fst st))"

fun run_projectiles_fl ::
  "(real \<Rightarrow> real) \<Rightarrow> projectile_op list \<Rightarrow> projectile_system \<Rightarrow> js_error + projectile_system" where
  "run_projectiles_fl fl [] ps = Inr ps"
| "run_projectiles_fl fl (opn # ops) ps =
     (case exec_projectile_op_fl fl opn ps of
        Inl err \<Rightarrow> Inl err
      | Inr ps1 \<Rightarrow> run_projectiles_fl fl ops ps1)"

section \<open>Notions used in the statements\<close>

text \<open>Squared distance from an enemy's centre to a point, and the hit test of the query.\<close>

definition sq_dist :: "vector3 \<Rightarrow> enemy_entry \<Rightarrow> real" where
  "sq_dist p en = distanceToSquared (group_position (enemy en)) p"

definition can_hit :: "vector3 \<Rightarrow> enemy_entry \<Rightarrow> bool" where
  "can_hit p en =
     (isAlive (enemy en) \<and> boundingRadius (enemy en) * boundingRadius (enemy en) \<ge> sq_dist p en)"

text \<open>One iteration of the \<^verbatim>\<open>forEach\<close>, and what holds of its variables after a prefix.\<close>

definition scan_step ::
  "vector3 \<Rightarrow> nat \<Rightarrow> enemy_entry \<Rightarrow> nat option \<times> real option \<Rightarrow> nat option \<times> real option" where
  "scan_step p i en acc =
     (if can_hit p en \<and> below (sq_dist p en) (snd acc) then (Some i, Some (sq_dist p en)) else acc)"

definition scan_inv :: "vector3 \<Rightarrow> enemy_entry list \<Rightarrow> nat option \<times> real option \<Rightarrow> bool" where
  "scan_inv p xs acc =
     (case fst acc of
        None \<Rightarrow> snd acc = None \<and> (\<forall>j < length xs. \<not> can_hit p (xs ! j))
      | Some k \<Rightarrow> k < length xs \<and> can_hit p (xs ! k) \<and> snd acc = Some (sq_dist p (xs ! k))
           \<and> (\<forall>j < length xs. can_hit p (xs ! j) \<longrightarrow> sq_dist p (xs ! k) \<le> sq_dist p (xs ! j))
           \<and> (\<forall>j < k. can_hit p (xs ! j) \<longrightarrow> sq_dist p (xs ! k) < sq_dist p (xs ! j)))"

subsection \<open>Sample data\<close>

text \<open>A grunt at the origin and a runner one unit along x, both freshly spawned.\<close>

definition ex_roster :: "enemy_entry list" where
  "ex_roster = [\<lparr> enemy = new_Enemy (enemyDefinitions Grunt) (Vector3 0 0 0), deathTimer = 0 \<rparr>,
                \<lparr> enemy = new_Enemy (enemyDefinitions Runner) (Vector3 1 0 0), deathTimer = 0 \<rparr>]"

definition ex_manager :: enemy_manager where
  "ex_manager = new_EnemyManager\<lparr>enemyEntries := ex_roster\<rparr>"

text \<open>A pistol shot (speed 62, damage 22, range 70) at a given position.\<close>

definition ex_shot :: "vector3 \<Rightarrow> projectile" where
  "ex_shot p = \<lparr> position = p, direction = Vector3 0 0 1, speed = 62, damage = 22,
                 maxDistance = 70, distanceTravelled = 0, timeToLive = 5 / 2, active = True \<rparr>"

definition ex_grunt :: enemy where
  "ex_grunt = new_Enemy (enemyDefinitions Grunt) (Vector3 0 0 0)"



subsection \<open>Histories of the manager\<close>

text \<open>
  The calls that reach an \<^verbatim>\<open>EnemyManager\<close> after its construction: the orchestrator's
  tick, the projectile system's impact query, the restart, and the resumption of a
  pending \<^verbatim>\<open>spawnEnemy\<close>. The arguments of a tick are the delta, the player's position,
  the two random draws of the spawn position and the outcome of the shuffle.
\<close>

datatype manager_op =
    Update real "vector3 option" "real \<times> real" "enemy_type list \<Rightarrow> enemy_type list"
  | ProjectileImpact projectile real
  | Reset
  | SpawnResumed nat "(real \<times> real) option"

fun exec_op :: "manager_op \<Rightarrow> enemy_manager \<Rightarrow> js_error + enemy_manager" where
  "exec_op (Update dt pp rnd sh) m =
     (case update dt pp rnd sh m of Inl err \<Rightarrow> Inl err | Inr (m1, attacks) \<Rightarrow> Inr m1)"
| "exec_op (ProjectileImpact pr dmg) m = Inr (snd (handleProjectileImpact m pr dmg))"
| "exec_op Reset m = Inr (reset m)"
| "exec_op (SpawnResumed k loaded) m = Inr (spawnEnemy_resume k loaded m)"

fun run :: "manager_op list \<Rightarrow> enemy_manager \<Rightarrow> js_error + enemy_manager" where
  "run [] m = Inr m"
| "run (opn # ops) m = (case exec_op opn m of Inl err \<Rightarrow> Inl err | Inr m1 \<Rightarrow> run ops m1)"

text \<open>
  What one iteration of the roster loop leaves of an entry (nothing, or the entry
  updated) and the attacks it reports.
\<close>

definition entry_step ::
  "real \<Rightarrow> vector3 option \<Rightarrow> enemy_entry \<Rightarrow> enemy_entry list \<times> real list" where
  "entry_step dt pp entry =
     (if isAlive (enemy entry) then
        ([entry\<lparr>enemy := fst (Enemy_update dt pp (enemy entry))\<rparr>],
         if snd (Enemy_update dt pp (enemy entry))
         then [cfg_damage (config (fst (Enemy_update dt pp (enemy entry))))] else [])
      else if deathTimer entry + dt \<ge> DEATH_CLEANUP_DELAY then ([], [])
      else ([entry\<lparr>deathTimer := deathTimer entry + dt\<rparr>], []))"

text \<open>A tick of one spawn interval with no player position; the shuffle reverses.\<close>

definition ex_tick :: manager_op where
  "ex_tick = Update (32 / 10) None (0, 0) rev"

text \<open>A first wave with one token left to spawn and the gate open.\<close>

definition ex_last_spawn :: enemy_manager where
  "ex_last_spawn =
     new_EnemyManager\<lparr>waveInProgress := True, spawnQueue := [Grunt], spawnTimer := 32 / 10\<rparr>"

text \<open>A wave under way whose spawn timer is short of the interval.\<close>

definition ex_waiting :: enemy_manager where
  "ex_waiting =
     new_EnemyManager\<lparr>waveInProgress := True, spawnQueue := [Grunt, Grunt], spawnTimer := 1\<rparr>"

text \<open>A wave under way with the timer elapsed and as many alive enemies as maxActive.\<close>

definition ex_full :: enemy_manager where
  "ex_full = new_EnemyManager\<lparr>waveInProgress := True, spawnQueue := [Grunt, Grunt],
               spawnTimer := 5, maxActive := 2, enemyEntries := ex_roster\<rparr>"

text \<open>A manager between waves whose roster holds one enemy killed half a second ago.\<close>

definition ex_dead_entry :: enemy_entry where
  "ex_dead_entry = \<lparr> enemy = ex_grunt\<lparr>health := 0, isAlive := False\<rparr>, deathTimer = 1 / 2 \<rparr>"

definition ex_corpse :: enemy_manager where
  "ex_corpse = new_EnemyManager\<lparr>enemyEntries := [ex_dead_entry]\<rparr>"

text \<open>The grunts that \<open>ex_tick\<close> starts spawning, none of them resumed.\<close>

definition ex_spawned :: "nat \<Rightarrow> enemy list" where
  "ex_spawned n = replicate n (new_Enemy (enemyDefinitions Grunt) (Vector3 28 0 0))"

subsection \<open>Projectiles: notions used in the statements\<close>

text \<open>
  The range invariant: every active projectile has travelled between 0 and its
  maxDistance, and every pooled one has its distance reset to 0. \<open>forward\<close> says that
  no active projectile has a negative speed.
\<close>

definition within_range :: "projectile_system \<Rightarrow> bool" where
  "within_range ps =
     ((\<forall>p \<in> set (projectiles ps). 0 \<le> distanceTravelled p \<and> distanceTravelled p \<le> maxDistance p)
      \<and> (\<forall>p \<in> set (pool ps). distanceTravelled p = 0))"

definition forward :: "projectile_system \<Rightarrow> bool" where
  "forward ps = (\<forall>p \<in> set (projectiles ps). 0 \<le> speed p)"

text \<open>A call with a non-negative delta or speed; a spawn with a non-negative range.\<close>

fun op_nonneg :: "projectile_op \<Rightarrow> bool" where
  "op_nonneg (Spawn args) = (0 \<le> sp_speed args)"
| "op_nonneg (Tick dt mgr) = (0 \<le> dt)"

fun op_ranged :: "projectile_op \<Rightarrow> bool" where
  "op_ranged (Spawn args) = (case sp_maxDistance args of None \<Rightarrow> True | Some d \<Rightarrow> 0 \<le> d)"
| "op_ranged (Tick dt mgr) = True"

text \<open>
  The three steps of the loop body by name: the motion update, the expiry test, and the
  fields that deactivation resets. \<open>leaves_unhit\<close> holds of a projectile that a tick
  removes before any impact query: one found inactive, or one that expires.
\<close>

definition advance :: "real \<Rightarrow> projectile \<Rightarrow> projectile" where
  "advance dt p =
     p\<lparr>position := addScaledVector (position p) (direction p) (speed p * dt),
       distanceTravelled := distanceTravelled p + speed p * dt,
       timeToLive := timeToLive p - dt\<rparr>"

definition expired :: "projectile \<Rightarrow> bool" where
  "expired p = (distanceTravelled p \<ge> maxDistance p \<or> timeToLive p \<le> 0)"

definition retire :: "projectile \<Rightarrow> projectile" where
  "retire p = p\<lparr>active := False, distanceTravelled := 0, timeToLive := 0\<rparr>"

definition leaves_unhit :: "real \<Rightarrow> projectile \<Rightarrow> bool" where
  "leaves_unhit dt p = (\<not> active p \<or> expired (advance dt p))"

text \<open>No enemy manager, or one with an empty roster.\<close>

definition no_enemies :: "enemy_manager option \<Rightarrow> bool" where
  "no_enemies mgr = (case mgr of None \<Rightarrow> True | Some m \<Rightarrow> enemyEntries m = [])"

subsection \<open>Projectiles: sample data\<close>

text \<open>A shot of speed 10 and range 10 along z, and the projectile it becomes after \<open>t\<close> seconds.\<close>

definition ex_ten :: spawn_args where
  "ex_ten = \<lparr> sp_position = Vector3 0 0 0, sp_direction = Vector3 0 0 1, sp_speed = 10,
              sp_damage = 22, sp_maxDistance = Some 10 \<rparr>"

definition ex_ten_flying :: "real \<Rightarrow> projectile" where
  "ex_ten_flying t = \<lparr> position = Vector3 0 0 (10 * t), direction = Vector3 0 0 1, speed = 10,
       damage = 22, maxDistance = 10, distanceTravelled = 10 * t, timeToLive = 25 / 10 - t,
       active = True \<rparr>"

text \<open>The same shot with a range of -1, and the projectile that the spawn makes of it.\<close>

definition ex_negative :: spawn_args where
  "ex_negative = \<lparr> sp_position = Vector3 0 0 0, sp_direction = Vector3 0 0 1, sp_speed = 10,
              sp_damage = 22, sp_maxDistance = Some (- 1) \<rparr>"

definition ex_negative_spawned :: projectile where
  "ex_negative_spawned = \<lparr> position = Vector3 0 0 0, direction = Vector3 0 0 1, speed = 10,
       damage = 22, maxDistance = - 1, distanceTravelled = 0, timeToLive = 25 / 10,
       active = True \<rparr>"

text \<open>
  A projectile of range 10 and damage 40 one unit short of the point \<open>(0.6, 0, 0)\<close>, which
  lies inside both hit-spheres of \<open>ex_roster\<close>, nearer to the runner; a tick of 0.1 s takes
  it there. The impact it makes on \<open>ex_manager\<close> kills the runner.
\<close>

definition ex_last_leg :: "real \<Rightarrow> projectile" where
  "ex_last_leg travelled = \<lparr> position = Vector3 (6 / 10) 0 (- 1), direction = Vector3 0 0 1,
       speed = 10, damage = 40, maxDistance = 10, distanceTravelled = travelled, timeToLive = 1,
       active = True \<rparr>"

definition ex_runner_hit :: impact where
  "ex_runner_hit = \<lparr> imp_enemy = 1, wasFatal = True, imp_reward = 80, imp_damage = 40 \<rparr>"

definition ex_manager_after :: enemy_manager where
  "ex_manager_after = ex_manager\<lparr>enemyEntries :=
            ex_roster[1 := (ex_roster ! 1)
                        \<lparr>enemy := (enemy (ex_roster ! 1))\<lparr>health := 0, isAlive := False\<rparr>\<rparr>]\<rparr>"

definition ex_lone :: "projectile \<Rightarrow> projectile_system" where
  "ex_lone p = \<lparr> projectiles = [p], pool = [] \<rparr>"

subsection \<open>Projectiles: rounding\<close>

text \<open>
  What is used of rounding to the nearest double: a non-negative exact result loses at
  most the relative amount \<^verbatim>\<open>2^-53\<close>. For the operations of the loop on a
  projectile of speed 10 (a sum of two doubles, ten times a double) this holds of every
  result that does not overflow: in the normal range the error of rounding to nearest is
  at most that, and a result in the subnormal range is exact.
\<close>

definition unit_roundoff :: real where
  "unit_roundoff = 1 / 2 ^ 53"

definition rounding :: "(real \<Rightarrow> real) \<Rightarrow> bool" where
  "rounding fl = (\<forall>x. 0 \<le> x \<longrightarrow> x * (1 - unit_roundoff) \<le> fl x)"

text \<open>
  The motion update with rounding, what a tick without enemies leaves of one entry of
  the active list, and what a run of such ticks leaves of a list of projectiles.
\<close>

definition advance_fl :: "(real \<Rightarrow> real) \<Rightarrow> real \<Rightarrow> projectile \<Rightarrow> projectile" where
  "advance_fl fl dt p =
     p\<lparr>position := addScaledVector_fl fl (position p) (direction p) (fl (speed p * dt)),
       distanceTravelled := fl (distanceTravelled p + fl (speed p * dt)),
       timeToLive := fl (timeToLive p - dt)\<rparr>"

definition flight_step_fl :: "(real \<Rightarrow> real) \<Rightarrow> real \<Rightarrow> projectile \<Rightarrow> projectile list" where
  "flight_step_fl fl dt p =
     (if \<not> active p \<or> expired (advance_fl fl dt p) then [] else [advance_fl fl dt p])"

fun fly_fl :: "(real \<Rightarrow> real) \<Rightarrow> real list \<Rightarrow> projectile list \<Rightarrow> projectile list" where
  "fly_fl fl [] xs = xs"
| "fly_fl fl (d # ds) xs = fly_fl fl ds (concat (map (flight_step_fl fl d) xs))"

text \<open>
  A projectile of speed 10 and range 10 that is active after \<open>k\<close> ticks of accumulated
  time \<open>t\<close>: its rounded distance is at least \<open>10 t\<close> less the margin of \<open>k + 1\<close>
  roundings.
\<close>

definition on_course :: "nat \<Rightarrow> real \<Rightarrow> projectile \<Rightarrow> bool" where
  "on_course k t p = (active p \<and> speed p = 10 \<and> maxDistance p = 10
      \<and> 10 * t * (1 - unit_roundoff) ^ (k + 1) \<le> distanceTravelled p)"

text \<open>A rounding that always loses the whole margin.\<close>

definition fl_worst :: "real \<Rightarrow> real" where
  "fl_worst x = x * (1 - unit_roundoff)"

section \<open>Damage\<close>

text \<open>
  C2. An alive enemy hit for less than its health loses exactly that amount and the call
  returns false; an alive enemy hit for at least its health ends with health 0, dead, and
  the call returns true (and if its health was positive, the call is the one that crossed
  it from above zero to zero); a dead enemy is left as it is and the call returns false.
\<close>

theorem takeDamage_cases:
  "(isAlive e \<and> amount < health e \<longrightarrow>
      takeDamage e amount = (False, e\<lparr>health := health e - amount\<rparr>)
      \<and> isAlive (snd (takeDamage e amount)))
   \<and> (isAlive e \<and> amount \<ge> health e \<longrightarrow>
      takeDamage e amount = (True, e\<lparr>health := 0, isAlive := False\<rparr>)
      \<and> (health e > 0 \<longrightarrow> health (snd (takeDamage e amount)) \<le> 0))
   \<and> (\<not> isAlive e \<longrightarrow> takeDamage e amount = (False, e))"
  by (simp add: takeDamage_def Let_def)

theorem takeDamage_cases_witness:
  "isAlive ex_grunt \<and> 22 < health ex_grunt
   \<and> takeDamage ex_grunt 22 = (False, ex_grunt\<lparr>health := 38\<rparr>)
   \<and> 60 \<ge> health ex_grunt \<and> 0 < health ex_grunt
   \<and> takeDamage ex_grunt 60 = (True, ex_grunt\<lparr>health := 0, isAlive := False\<rparr>)
   \<and> \<not> isAlive (ex_grunt\<lparr>health := 0, isAlive := False\<rparr>)
   \<and> takeDamage (ex_grunt\<lparr>health := 0, isAlive := False\<rparr>) 22
       = (False, ex_grunt\<lparr>health := 0, isAlive := False\<rparr>)"
  using takeDamage_cases [of ex_grunt 22] takeDamage_cases [of ex_grunt 60]
    takeDamage_cases [of "ex_grunt\<lparr>health := 0, isAlive := False\<rparr>" 22]
  by (simp add: ex_grunt_def new_Enemy_def)

section \<open>The impact query\<close>

lemma impact_scan_Cons:
  "impact_scan p (en # rest) i acc = impact_scan p rest (Suc i) (scan_step p i en acc)"
  by (cases acc) (simp add: scan_step_def can_hit_def sq_dist_def Let_def)

lemma impact_scan_snoc:
  "impact_scan p (xs @ [en]) i acc = scan_step p (i + length xs) en (impact_scan p xs i acc)"
  by (induction xs arbitrary: i acc) (simp_all add: impact_scan_Cons)

lemma scan_inv_all: "scan_inv p xs (impact_scan p xs 0 (None, None))"
proof (induction xs rule: rev_induct)
  case Nil
  show ?case by (simp add: scan_inv_def)
next
  case (snoc en xs)
  obtain h d where acc: "impact_scan p xs 0 (None, None) = (h, d)"
    by (cases "impact_scan p xs 0 (None, None)")
  show ?case
    using snoc acc
    apply (simp add: impact_scan_snoc scan_step_def scan_inv_def nth_append less_Suc_eq
        split: option.splits)
    apply (auto simp: nth_append less_Suc_eq)
    done
qed

lemma takeDamage_config: "config (snd (takeDamage e a)) = config e"
  by (simp add: takeDamage_def Let_def)

text \<open>
  C1. When no alive enemy's hit-sphere contains the projectile's position the query
  returns null and changes nothing. Otherwise it picks an alive enemy \<open>k\<close> whose sphere
  contains the position, at minimal squared distance among those and strictly nearer than
  every such enemy before it in the roster; it replaces exactly that enemy by the result
  of \<open>takeDamage\<close> with the given damage, and the impact reports the fatal flag, the
  damage, and as reward the enemy's configured reward if the hit was fatal and 0 if not.
\<close>

theorem handleProjectileImpact_nearest:
  "(\<not> (\<exists>j < length (enemyEntries m). can_hit (position pr) (enemyEntries m ! j))
      \<longrightarrow> handleProjectileImpact m pr dmg = (None, m))
   \<and> ((\<exists>j < length (enemyEntries m). can_hit (position pr) (enemyEntries m ! j))
      \<longrightarrow> (\<exists>k < length (enemyEntries m).
             can_hit (position pr) (enemyEntries m ! k)
           \<and> (\<forall>j < length (enemyEntries m). can_hit (position pr) (enemyEntries m ! j)
                 \<longrightarrow> sq_dist (position pr) (enemyEntries m ! k)
                       \<le> sq_dist (position pr) (enemyEntries m ! j))
           \<and> (\<forall>j < k. can_hit (position pr) (enemyEntries m ! j)
                 \<longrightarrow> sq_dist (position pr) (enemyEntries m ! k)
                       < sq_dist (position pr) (enemyEntries m ! j))
           \<and> handleProjectileImpact m pr dmg =
               (Some \<lparr> imp_enemy = k,
                       wasFatal = fst (takeDamage (enemy (enemyEntries m ! k)) dmg),
                       imp_reward = (if fst (takeDamage (enemy (enemyEntries m ! k)) dmg)
                                     then cfg_reward (config (enemy (enemyEntries m ! k))) else 0),
                       imp_damage = dmg \<rparr>,
                m\<lparr>enemyEntries := (enemyEntries m)
                     [k := (enemyEntries m ! k)
                             \<lparr>enemy := snd (takeDamage (enemy (enemyEntries m ! k)) dmg)\<rparr>]\<rparr>)))"
proof -
  have inv: "scan_inv (position pr) (enemyEntries m)
               (impact_scan (position pr) (enemyEntries m) 0 (None, None))"
    by (rule scan_inv_all)
  show ?thesis
  proof (cases "fst (impact_scan (position pr) (enemyEntries m) 0 (None, None))")
    case None
    with inv have "\<forall>j < length (enemyEntries m). \<not> can_hit (position pr) (enemyEntries m ! j)"
      by (simp add: scan_inv_def)
    with None show ?thesis by (simp add: handleProjectileImpact_def)
  next
    case (Some k)
    with inv have k: "k < length (enemyEntries m)" "can_hit (position pr) (enemyEntries m ! k)"
      and least: "\<forall>j < length (enemyEntries m). can_hit (position pr) (enemyEntries m ! j)
                 \<longrightarrow> sq_dist (position pr) (enemyEntries m ! k)
                       \<le> sq_dist (position pr) (enemyEntries m ! j)"
      and earliest: "\<forall>j < k. can_hit (position pr) (enemyEntries m ! j)
                 \<longrightarrow> sq_dist (position pr) (enemyEntries m ! k)
                       < sq_dist (position pr) (enemyEntries m ! j)"
      by (simp_all add: scan_inv_def)
    have "handleProjectileImpact m pr dmg =
               (Some \<lparr> imp_enemy = k,
                       wasFatal = fst (takeDamage (enemy (enemyEntries m ! k)) dmg),
                       imp_reward = (if fst (takeDamage (enemy (enemyEntries m ! k)) dmg)
                                     then cfg_reward (config (enemy (enemyEntries m ! k))) else 0),
                       imp_damage = dmg \<rparr>,
                m\<lparr>enemyEntries := (enemyEntries m)
                     [k := (enemyEntries m ! k)
                             \<lparr>enemy := snd (takeDamage (enemy (enemyEntries m ! k)) dmg)\<rparr>]\<rparr>)"
      using Some
      by (simp add: handleProjectileImpact_def Let_def case_prod_unfold takeDamage_config)
    with k least earliest show ?thesis by blast
  qed
qed

lemma ex_manager_entries: "enemyEntries ex_manager = ex_roster" "length ex_roster = 2"
  by (simp_all add: ex_manager_def ex_roster_def)

lemma ex_can_hit:
  "can_hit (Vector3 (6 / 10) 0 0) (ex_roster ! 0)"
  "can_hit (Vector3 (6 / 10) 0 0) (ex_roster ! 1)"
  "\<not> sq_dist (Vector3 (6 / 10) 0 0) (ex_roster ! 0) \<le> sq_dist (Vector3 (6 / 10) 0 0) (ex_roster ! 1)"
  "\<not> can_hit (Vector3 10 0 0) (ex_roster ! 0)"
  "\<not> can_hit (Vector3 10 0 0) (ex_roster ! 1)"
  by (simp_all add: ex_roster_def can_hit_def sq_dist_def new_Enemy_def distanceToSquared_def)

lemma ex_fatal:
  "takeDamage (enemy (ex_roster ! 1)) 40 =
     (True, (enemy (ex_roster ! 1))\<lparr>health := 0, isAlive := False\<rparr>)"
  "cfg_reward (config (enemy (ex_roster ! 1))) = 80"
  by (simp_all add: ex_roster_def new_Enemy_def takeDamage_def)

theorem handleProjectileImpact_nearest_witness:
  "(\<exists>j < length (enemyEntries ex_manager).
       can_hit (position (ex_shot (Vector3 (6 / 10) 0 0))) (enemyEntries ex_manager ! j))
   \<and> handleProjectileImpact ex_manager (ex_shot (Vector3 (6 / 10) 0 0)) 40
       = (Some \<lparr> imp_enemy = 1, wasFatal = True, imp_reward = 80, imp_damage = 40 \<rparr>,
          ex_manager\<lparr>enemyEntries :=
            ex_roster[1 := (ex_roster ! 1)
                        \<lparr>enemy := (enemy (ex_roster ! 1))\<lparr>health := 0, isAlive := False\<rparr>\<rparr>]\<rparr>)
   \<and> \<not> (\<exists>j < length (enemyEntries ex_manager).
       can_hit (position (ex_shot (Vector3 10 0 0))) (enemyEntries ex_manager ! j))
   \<and> handleProjectileImpact ex_manager (ex_shot (Vector3 10 0 0)) 40 = (None, ex_manager)"
proof -
  have pos: "position (ex_shot p) = p" for p
    by (simp add: ex_shot_def)
  have h1: "\<exists>j < length (enemyEntries ex_manager).
       can_hit (position (ex_shot (Vector3 (6 / 10) 0 0))) (enemyEntries ex_manager ! j)"
    using ex_can_hit(2) by (intro exI[of _ 1]) (simp add: pos ex_manager_entries)
  have h2: "\<not> (\<exists>j < length (enemyEntries ex_manager).
       can_hit (position (ex_shot (Vector3 10 0 0))) (enemyEntries ex_manager ! j))"
    using ex_can_hit(4,5) by (auto simp: pos ex_manager_entries dest!: less_2_cases)
  from h1 handleProjectileImpact_nearest [of ex_manager "ex_shot (Vector3 (6 / 10) 0 0)" 40]
  obtain k where k: "k < length (enemyEntries ex_manager)"
    and least: "\<forall>j < length (enemyEntries ex_manager).
        can_hit (position (ex_shot (Vector3 (6 / 10) 0 0))) (enemyEntries ex_manager ! j)
        \<longrightarrow> sq_dist (position (ex_shot (Vector3 (6 / 10) 0 0))) (enemyEntries ex_manager ! k)
              \<le> sq_dist (position (ex_shot (Vector3 (6 / 10) 0 0))) (enemyEntries ex_manager ! j)"
    and res: "handleProjectileImpact ex_manager (ex_shot (Vector3 (6 / 10) 0 0)) 40 =
           (Some \<lparr> imp_enemy = k,
                   wasFatal = fst (takeDamage (enemy (enemyEntries ex_manager ! k)) 40),
                   imp_reward = (if fst (takeDamage (enemy (enemyEntries ex_manager ! k)) 40)
                                 then cfg_reward (config (enemy (enemyEntries ex_manager ! k))) else 0),
                   imp_damage = 40 \<rparr>,
            ex_manager\<lparr>enemyEntries := (enemyEntries ex_manager)
              [k := (enemyEntries ex_manager ! k)
                      \<lparr>enemy := snd (takeDamage (enemy (enemyEntries ex_manager ! k)) 40)\<rparr>]\<rparr>)"
    by blast
  from k have "k = 0 \<or> k = 1"
    by (auto simp: ex_manager_entries dest: less_2_cases)
  moreover have "k \<noteq> 0"
  proof
    assume "k = 0"
    with least [rule_format, of 1] ex_can_hit(2,3) show False
      by (simp add: pos ex_manager_entries)
  qed
  ultimately have "k = 1" by simp
  with res have c1: "handleProjectileImpact ex_manager (ex_shot (Vector3 (6 / 10) 0 0)) 40
       = (Some \<lparr> imp_enemy = 1, wasFatal = True, imp_reward = 80, imp_damage = 40 \<rparr>,
          ex_manager\<lparr>enemyEntries :=
            ex_roster[1 := (ex_roster ! 1)
                        \<lparr>enemy := (enemy (ex_roster ! 1))\<lparr>health := 0, isAlive := False\<rparr>\<rparr>]\<rparr>)"
    by (simp add: ex_manager_entries ex_fatal [unfolded One_nat_def])
  from h2 handleProjectileImpact_nearest [of ex_manager "ex_shot (Vector3 10 0 0)" 40]
  have c2: "handleProjectileImpact ex_manager (ex_shot (Vector3 10 0 0)) 40 = (None, ex_manager)"
    by blast
  from h1 c1 h2 c2 show ?thesis by blast
qed

section \<open>Wave composition\<close>

lemma push_times_replicate: "push_times n t c = c @ replicate n t"
  by (induction n arbitrary: c) (simp_all add: replicate_app_Cons_same)

lemma mset_wave_composition:
  "mset (wave_composition w) =
     replicate_mset (5 + 2 * w) Grunt
     + (if w \<ge> 3 then replicate_mset (w div 2) Runner else {#})
     + (if w mod 4 = 0 then replicate_mset (1 + w div 6) Brute else {#})"
  by (simp add: wave_composition_def Let_def push_times_replicate mult.commute)

text \<open>
  C3. Whatever the shuffle does, as long as it only rearranges, composing a wave adds to
  the spawn queue a permutation of \<open>5 + 2w\<close> grunt tokens, plus \<open>w div 2\<close> runner tokens
  exactly when \<open>w \<ge> 3\<close>, plus \<open>1 + w div 6\<close> brute tokens exactly when \<open>w mod 4 = 0\<close>,
  where \<open>w\<close> is the wave number. On an empty queue, wave 1 gives exactly 7 grunts and
  nothing else, and wave 4 gives exactly one brute.
\<close>

theorem enqueueWaveComposition_counts:
  "is_shuffle sh \<Longrightarrow>
     mset (spawnQueue (enqueueWaveComposition sh m)) =
       mset (spawnQueue m)
       + (replicate_mset (5 + 2 * wave m) Grunt
          + (if wave m \<ge> 3 then replicate_mset (wave m div 2) Runner else {#})
          + (if wave m mod 4 = 0 then replicate_mset (1 + wave m div 6) Brute else {#}))
     \<and> (wave m = 1 \<and> spawnQueue m = [] \<longrightarrow>
          mset (spawnQueue (enqueueWaveComposition sh m)) = replicate_mset 7 Grunt)
     \<and> (wave m = 4 \<and> spawnQueue m = [] \<longrightarrow>
          count (mset (spawnQueue (enqueueWaveComposition sh m))) Brute = 1)"
proof -
  assume "is_shuffle sh"
  then have sh: "mset (sh c) = mset c" for c
    by (simp add: is_shuffle_def)
  have "spawnQueue (enqueueWaveComposition sh m) = spawnQueue m @ sh (wave_composition (wave m))"
    by (simp add: enqueueWaveComposition_def)
  then have g: "mset (spawnQueue (enqueueWaveComposition sh m)) =
       mset (spawnQueue m)
       + (replicate_mset (5 + 2 * wave m) Grunt
          + (if wave m \<ge> 3 then replicate_mset (wave m div 2) Runner else {#})
          + (if wave m mod 4 = 0 then replicate_mset (1 + wave m div 6) Brute else {#}))"
    by (simp only: mset_append sh mset_wave_composition)
  have "mset (spawnQueue (enqueueWaveComposition sh m)) = replicate_mset 7 Grunt"
    if "wave m = 1" "spawnQueue m = []"
    using that by (simp add: g)
  moreover have "count (mset (spawnQueue (enqueueWaveComposition sh m))) Brute = 1"
    if "wave m = 4" "spawnQueue m = []"
    using that by (simp add: g)
  ultimately show ?thesis using g by blast
qed

lemma is_shuffle_rev: "is_shuffle rev"
  by (simp add: is_shuffle_def)

theorem enqueueWaveComposition_counts_witness:
  "is_shuffle rev
   \<and> wave new_EnemyManager = 1 \<and> spawnQueue new_EnemyManager = []
   \<and> mset (spawnQueue (enqueueWaveComposition rev new_EnemyManager)) = replicate_mset 7 Grunt
   \<and> wave (new_EnemyManager\<lparr>wave := 4\<rparr>) = 4 \<and> spawnQueue (new_EnemyManager\<lparr>wave := 4\<rparr>) = []
   \<and> count (mset (spawnQueue (enqueueWaveComposition rev (new_EnemyManager\<lparr>wave := 4\<rparr>)))) Brute = 1"
  using enqueueWaveComposition_counts [OF is_shuffle_rev, of new_EnemyManager]
    enqueueWaveComposition_counts [OF is_shuffle_rev, of "new_EnemyManager\<lparr>wave := 4\<rparr>"]
    is_shuffle_rev
  by (simp add: new_EnemyManager_def)


section \<open>The roster loop\<close>

lemma update_entries_append:
  "update_entries dt pp (length xs) (xs @ ys, a) =
     Inr (concat (map (\<lambda>en. fst (entry_step dt pp en)) xs) @ ys,
          a @ concat (map (\<lambda>en. snd (entry_step dt pp en)) (rev xs)))"
proof (induction xs arbitrary: ys a rule: rev_induct)
  case Nil
  show ?case by simp
next
  case (snoc x xs)
  have idx: "(xs @ x # ys) ! length xs = x" by simp
  show ?case
    using snoc [of "u # ys" for u] snoc [of ys]
    by (simp add: entry_step_def Let_def idx)
qed

lemma update_entries_all:
  "update_entries dt pp (length xs) (xs, []) =
     Inr (concat (map (\<lambda>en. fst (entry_step dt pp en)) xs),
          concat (map (\<lambda>en. snd (entry_step dt pp en)) (rev xs)))"
  using update_entries_append [of dt pp xs "[]" "[]"] by simp

lemma update_eq:
  "update dt pp rnd sh m =
     Inr ((handleSpawning pp rnd (maybeScheduleNewWave sh
             (m\<lparr>elapsed := elapsed m + dt, spawnTimer := spawnTimer m + dt\<rparr>)))
           \<lparr>enemyEntries := concat (map (\<lambda>en. fst (entry_step dt pp en))
              (enemyEntries (handleSpawning pp rnd (maybeScheduleNewWave sh
                 (m\<lparr>elapsed := elapsed m + dt, spawnTimer := spawnTimer m + dt\<rparr>)))))\<rparr>,
          concat (map (\<lambda>en. snd (entry_step dt pp en))
              (rev (enemyEntries (handleSpawning pp rnd (maybeScheduleNewWave sh
                 (m\<lparr>elapsed := elapsed m + dt, spawnTimer := spawnTimer m + dt\<rparr>)))))))"
  by (simp add: update_def Let_def update_entries_all)

section \<open>Difficulty\<close>

lemma maybeScheduleNewWave_difficulty:
  "spawnInterval (maybeScheduleNewWave sh m) = spawnInterval m"
  "maxActive (maybeScheduleNewWave sh m) = maxActive m"
  "enemyEntries (maybeScheduleNewWave sh m) = enemyEntries m"
  "pendingSpawns (maybeScheduleNewWave sh m) = pendingSpawns m"
  by (simp_all add: maybeScheduleNewWave_def enqueueWaveComposition_def Let_def)

lemma handleSpawning_entries: "enemyEntries (handleSpawning pp rnd m) = enemyEntries m"
  by (simp add: handleSpawning_def spawnEnemy_def Let_def)

lemma handleSpawning_interval:
  "9 / 10 \<le> spawnInterval m \<Longrightarrow>
     spawnInterval (handleSpawning pp rnd m) \<le> spawnInterval m
     \<and> 9 / 10 \<le> spawnInterval (handleSpawning pp rnd m)"
  by (auto simp: handleSpawning_def spawnEnemy_def Let_def max_def)

lemma handleSpawning_maxActive:
  "maxActive m \<le> 24 \<Longrightarrow>
     maxActive m \<le> maxActive (handleSpawning pp rnd m) \<and> maxActive (handleSpawning pp rnd m) \<le> 24"
  by (auto simp: handleSpawning_def spawnEnemy_def Let_def min_def)

lemma exec_op_difficulty:
  assumes "9 / 10 \<le> spawnInterval m" "maxActive m \<le> 24"
  shows "\<exists>m1. exec_op opn m = Inr m1
           \<and> spawnInterval m1 \<le> spawnInterval m \<and> 9 / 10 \<le> spawnInterval m1
           \<and> maxActive m \<le> maxActive m1 \<and> maxActive m1 \<le> 24"
proof (cases opn)
  case (Update dt pp rnd sh)
  let ?m2 = "maybeScheduleNewWave sh (m\<lparr>elapsed := elapsed m + dt, spawnTimer := spawnTimer m + dt\<rparr>)"
  have "9 / 10 \<le> spawnInterval ?m2" "maxActive ?m2 \<le> 24"
    "spawnInterval ?m2 = spawnInterval m" "maxActive ?m2 = maxActive m"
    using assms by (simp_all add: maybeScheduleNewWave_difficulty)
  with handleSpawning_interval [of ?m2 pp rnd] handleSpawning_maxActive [of ?m2 pp rnd]
  show ?thesis
    using Update by (simp add: update_eq)
next
  case (ProjectileImpact pr dmg)
  then show ?thesis
    using assms
    by (simp add: handleProjectileImpact_def Let_def case_prod_unfold split: option.splits)
next
  case Reset
  then show ?thesis using assms by (simp add: reset_def)
next
  case (SpawnResumed k loaded)
  then show ?thesis using assms by (simp add: spawnEnemy_resume_def Let_def)
qed

lemma run_append:
  "run (ops @ [opn]) m = (case run ops m of Inl err \<Rightarrow> Inl err | Inr m1 \<Rightarrow> exec_op opn m1)"
  by (induction ops arbitrary: m) (simp_all split: sum.splits)

lemma run_difficulty:
  "\<exists>m1. run ops new_EnemyManager = Inr m1 \<and> 9 / 10 \<le> spawnInterval m1 \<and> maxActive m1 \<le> 24"
proof (induction ops rule: rev_induct)
  case Nil
  show ?case
    by (simp add: new_EnemyManager_def DEFAULT_SPAWN_INTERVAL_def DEFAULT_MAX_ACTIVE_def)
next
  case (snoc opn ops)
  then obtain m1 where m1: "run ops new_EnemyManager = Inr m1"
    "9 / 10 \<le> spawnInterval m1" "maxActive m1 \<le> 24" by blast
  from exec_op_difficulty [OF m1(2,3), of opn] m1(1) show ?case
    by (auto simp: run_append)
qed

text \<open>
  C6. When the gate is open and the queue holds its last token, handling the spawn raises
  the wave number by one, sets the spawn interval to \<open>max 0.9 (0.92 * interval)\<close> and
  maxActive to \<open>min 24 (maxActive + 1)\<close>. Every history of calls from the constructor
  runs without throwing and ends with the interval at least 0.9 and maxActive at most 24,
  and any further call neither raises the interval nor lowers maxActive, nor takes them
  past those bounds.
\<close>

theorem difficulty_escalation:
  "(waveInProgress m \<and> spawnQueue m = [t] \<and> spawnInterval m \<le> spawnTimer m
      \<and> countActiveEnemies m < maxActive m
     \<longrightarrow> wave (handleSpawning pp rnd m) = wave m + 1
       \<and> spawnInterval (handleSpawning pp rnd m) = max (9 / 10) (92 / 100 * spawnInterval m)
       \<and> maxActive (handleSpawning pp rnd m) = min 24 (maxActive m + 1))
   \<and> (\<exists>m1. run ops new_EnemyManager = Inr m1
         \<and> 9 / 10 \<le> spawnInterval m1 \<and> maxActive m1 \<le> 24
         \<and> (\<forall>opn. \<exists>m2. exec_op opn m1 = Inr m2
               \<and> spawnInterval m2 \<le> spawnInterval m1 \<and> 9 / 10 \<le> spawnInterval m2
               \<and> maxActive m1 \<le> maxActive m2 \<and> maxActive m2 \<le> 24))"
proof -
  have "wave (handleSpawning pp rnd m) = wave m + 1
       \<and> spawnInterval (handleSpawning pp rnd m) = max (9 / 10) (92 / 100 * spawnInterval m)
       \<and> maxActive (handleSpawning pp rnd m) = min 24 (maxActive m + 1)"
    if "waveInProgress m" "spawnQueue m = [t]" "spawnInterval m \<le> spawnTimer m"
      "countActiveEnemies m < maxActive m"
    using that by (simp add: handleSpawning_def spawnEnemy_def Let_def mult.commute)
  moreover
  obtain m1 where m1: "run ops new_EnemyManager = Inr m1"
    "9 / 10 \<le> spawnInterval m1" "maxActive m1 \<le> 24"
    using run_difficulty [of ops] by blast
  with exec_op_difficulty [OF m1(2,3)]
  have "\<exists>m1. run ops new_EnemyManager = Inr m1
         \<and> 9 / 10 \<le> spawnInterval m1 \<and> maxActive m1 \<le> 24
         \<and> (\<forall>opn. \<exists>m2. exec_op opn m1 = Inr m2
               \<and> spawnInterval m2 \<le> spawnInterval m1 \<and> 9 / 10 \<le> spawnInterval m2
               \<and> maxActive m1 \<le> maxActive m2 \<and> maxActive m2 \<le> 24)"
    by blast
  ultimately show ?thesis by blast
qed

lemma ex_last_spawn_gate:
  "waveInProgress ex_last_spawn" "spawnQueue ex_last_spawn = [Grunt]"
  "spawnInterval ex_last_spawn \<le> spawnTimer ex_last_spawn"
  "countActiveEnemies ex_last_spawn < maxActive ex_last_spawn"
  "wave ex_last_spawn = 1" "spawnInterval ex_last_spawn = 32 / 10" "maxActive ex_last_spawn = 8"
  by (simp_all add: ex_last_spawn_def new_EnemyManager_def countActiveEnemies_def
      DEFAULT_SPAWN_INTERVAL_def DEFAULT_MAX_ACTIVE_def)

theorem difficulty_escalation_witness:
  "waveInProgress ex_last_spawn \<and> spawnQueue ex_last_spawn = [Grunt]
   \<and> spawnInterval ex_last_spawn \<le> spawnTimer ex_last_spawn
   \<and> countActiveEnemies ex_last_spawn < maxActive ex_last_spawn
   \<and> wave (handleSpawning None (0, 0) ex_last_spawn) = 2
   \<and> spawnInterval (handleSpawning None (0, 0) ex_last_spawn) = 2944 / 1000
   \<and> maxActive (handleSpawning None (0, 0) ex_last_spawn) = 9"
  using difficulty_escalation [of ex_last_spawn Grunt None "(0, 0)" "[]"] ex_last_spawn_gate
  by simp

section \<open>The spawn gate\<close>

lemma length_entry_step: "length (fst (entry_step dt pp en)) \<le> 1"
  by (simp add: entry_step_def)

lemma length_concat_entry_step:
  "length (concat (map (\<lambda>en. fst (entry_step dt pp en)) xs)) \<le> length xs"
proof (induction xs)
  case Nil
  show ?case by simp
next
  case (Cons x xs)
  with length_entry_step [of dt pp x] show ?case by simp
qed

lemma handleSpawning_closed:
  "spawnTimer m < spawnInterval m \<or> countActiveEnemies m \<ge> maxActive m \<Longrightarrow>
     handleSpawning pp rnd m = m"
  by (auto simp: handleSpawning_def)

lemma maybeScheduleNewWave_busy:
  "spawnQueue m \<noteq> [] \<or> enemyEntries m \<noteq> [] \<Longrightarrow> maybeScheduleNewWave sh m = m"
  by (auto simp: maybeScheduleNewWave_def)

lemma countActiveEnemies_foldl:
  "foldl (\<lambda>count entry. count + (if isAlive (enemy entry) then 1 else 0)) n xs
     = n + length (filter (\<lambda>en. isAlive (enemy en)) xs)"
  by (induction xs arbitrary: n) simp_all

lemma countActiveEnemies_filter:
  "countActiveEnemies m = length (filter (\<lambda>en. isAlive (enemy en)) (enemyEntries m))"
  by (simp add: countActiveEnemies_def countActiveEnemies_foldl)

text \<open>
  C7. On a tick that starts with a non-empty spawn queue and on which the gate fails (the
  timer, advanced by the tick's delta, is still below the spawn interval, or the number
  of alive enemies is at least maxActive), the tick does not throw, leaves the queue as
  it was, starts no spawn and adds no roster entry. Seen from the gate itself: when it
  fails, handling the spawn changes nothing; and whenever handling the spawn changes the
  queue, the alive count was strictly below maxActive and the timer had reached the
  interval, the head token was removed and one spawn of its type was started.
\<close>

theorem spawn_gate_defers:
  "(spawnQueue m \<noteq> []
      \<and> (spawnTimer m + dt < spawnInterval m \<or> countActiveEnemies m \<ge> maxActive m)
     \<longrightarrow> (\<exists>m1 attacks. update dt pp rnd sh m = Inr (m1, attacks)
            \<and> spawnQueue m1 = spawnQueue m
            \<and> pendingSpawns m1 = pendingSpawns m
            \<and> length (enemyEntries m1) \<le> length (enemyEntries m)))
   \<and> (spawnTimer m < spawnInterval m \<or> countActiveEnemies m \<ge> maxActive m
     \<longrightarrow> handleSpawning pp rnd m = m)
   \<and> (spawnQueue (handleSpawning pp rnd m) \<noteq> spawnQueue m
     \<longrightarrow> countActiveEnemies m < maxActive m \<and> spawnInterval m \<le> spawnTimer m
       \<and> spawnQueue (handleSpawning pp rnd m) = tl (spawnQueue m)
       \<and> pendingSpawns (handleSpawning pp rnd m)
           = pendingSpawns m @ [new_Enemy (enemyDefinitions (hd (spawnQueue m)))
               (getSpawnPositionRelativeTo pp rnd (m\<lparr>spawnTimer := 0, spawnQueue := tl (spawnQueue m)\<rparr>))])"
proof -
  let ?m1 = "m\<lparr>elapsed := elapsed m + dt, spawnTimer := spawnTimer m + dt\<rparr>"
  have a: "\<exists>m1 attacks. update dt pp rnd sh m = Inr (m1, attacks)
            \<and> spawnQueue m1 = spawnQueue m
            \<and> pendingSpawns m1 = pendingSpawns m
            \<and> length (enemyEntries m1) \<le> length (enemyEntries m)"
    if q: "spawnQueue m \<noteq> []"
      and g: "spawnTimer m + dt < spawnInterval m \<or> countActiveEnemies m \<ge> maxActive m"
  proof -
    from q have s: "maybeScheduleNewWave sh ?m1 = ?m1"
      by (simp add: maybeScheduleNewWave_busy)
    from g have "spawnTimer ?m1 < spawnInterval ?m1 \<or> countActiveEnemies ?m1 \<ge> maxActive ?m1"
      by (simp add: countActiveEnemies_def)
    then have h: "handleSpawning pp rnd ?m1 = ?m1"
      by (rule handleSpawning_closed)
    show ?thesis
      by (simp add: update_eq s h length_concat_entry_step)
  qed
  have b: "handleSpawning pp rnd m = m"
    if "spawnTimer m < spawnInterval m \<or> countActiveEnemies m \<ge> maxActive m"
    using that by (rule handleSpawning_closed)
  have c: "countActiveEnemies m < maxActive m \<and> spawnInterval m \<le> spawnTimer m
       \<and> spawnQueue (handleSpawning pp rnd m) = tl (spawnQueue m)
       \<and> pendingSpawns (handleSpawning pp rnd m)
           = pendingSpawns m @ [new_Enemy (enemyDefinitions (hd (spawnQueue m)))
               (getSpawnPositionRelativeTo pp rnd (m\<lparr>spawnTimer := 0, spawnQueue := tl (spawnQueue m)\<rparr>))]"
    if "spawnQueue (handleSpawning pp rnd m) \<noteq> spawnQueue m"
    using that by (auto simp: handleSpawning_def spawnEnemy_def Let_def split: if_splits)
  from a b c show ?thesis by blast
qed

lemma ex_waiting_facts:
  "spawnQueue ex_waiting = [Grunt, Grunt]" "spawnQueue ex_waiting \<noteq> []"
  "spawnTimer ex_waiting + 1 / 2 < spawnInterval ex_waiting"
  "pendingSpawns ex_waiting = []"
  by (simp_all add: ex_waiting_def new_EnemyManager_def DEFAULT_SPAWN_INTERVAL_def)

lemma ex_full_facts:
  "spawnQueue ex_full \<noteq> []" "countActiveEnemies ex_full \<ge> maxActive ex_full"
  "spawnInterval ex_full \<le> spawnTimer ex_full" "waveInProgress ex_full"
  by (simp_all add: ex_full_def new_EnemyManager_def DEFAULT_SPAWN_INTERVAL_def
      countActiveEnemies_def ex_roster_def new_Enemy_def)

lemma ex_last_spawn_dequeues:
  "spawnQueue (handleSpawning None (0, 0) ex_last_spawn) \<noteq> spawnQueue ex_last_spawn"
  by (simp add: handleSpawning_def ex_last_spawn_def new_EnemyManager_def spawnEnemy_def
      countActiveEnemies_def DEFAULT_SPAWN_INTERVAL_def DEFAULT_MAX_ACTIVE_def Let_def)

theorem spawn_gate_defers_witness:
  "spawnQueue ex_waiting \<noteq> [] \<and> spawnTimer ex_waiting + 1 / 2 < spawnInterval ex_waiting
   \<and> (\<exists>m1 attacks. update (1 / 2) None (0, 0) rev ex_waiting = Inr (m1, attacks)
         \<and> spawnQueue m1 = [Grunt, Grunt] \<and> pendingSpawns m1 = [] \<and> enemyEntries m1 = [])
   \<and> spawnQueue ex_full \<noteq> [] \<and> countActiveEnemies ex_full \<ge> maxActive ex_full
   \<and> spawnInterval ex_full \<le> spawnTimer ex_full
   \<and> handleSpawning None (0, 0) ex_full = ex_full
   \<and> spawnQueue (handleSpawning None (0, 0) ex_last_spawn) \<noteq> spawnQueue ex_last_spawn
   \<and> countActiveEnemies ex_last_spawn < maxActive ex_last_spawn
   \<and> spawnQueue (handleSpawning None (0, 0) ex_last_spawn) = []"
proof -
  have e: "enemyEntries ex_waiting = []"
    by (simp add: ex_waiting_def new_EnemyManager_def)
  from spawn_gate_defers [of ex_waiting "1 / 2" None "(0, 0)" rev] ex_waiting_facts e
  have a: "\<exists>m1 attacks. update (1 / 2) None (0, 0) rev ex_waiting = Inr (m1, attacks)
         \<and> spawnQueue m1 = [Grunt, Grunt] \<and> pendingSpawns m1 = [] \<and> enemyEntries m1 = []"
    by simp
  from spawn_gate_defers [of ex_full 0 None "(0, 0)" rev] ex_full_facts
  have b: "handleSpawning None (0, 0) ex_full = ex_full"
    by blast
  from spawn_gate_defers [of ex_last_spawn 0 None "(0, 0)" rev] ex_last_spawn_dequeues
  have c: "countActiveEnemies ex_last_spawn < maxActive ex_last_spawn
           \<and> spawnQueue (handleSpawning None (0, 0) ex_last_spawn) = []"
    by (simp add: ex_last_spawn_gate)
  from a b c ex_waiting_facts ex_full_facts ex_last_spawn_dequeues show ?thesis
    by blast
qed

section \<open>Waves and dead enemies\<close>

text \<open>
  C9. Scheduling a wave changes the manager only when the roster is empty. While the
  roster lists a dead enemy, scheduling changes nothing and a whole tick composes no
  wave: the tick does not throw, the queue is the old one or its tail, a wave that was
  not in progress is still not in progress with the same number, and every dead entry
  whose timer stays below the cleanup delay is still listed, its timer advanced. The
  spawn gate counts the alive entries only.
\<close>

theorem no_wave_while_dead_listed:
  "(maybeScheduleNewWave sh m \<noteq> m \<longrightarrow> enemyEntries m = [])
   \<and> ((\<exists>en \<in> set (enemyEntries m). \<not> isAlive (enemy en))
     \<longrightarrow> maybeScheduleNewWave sh m = m
       \<and> (\<exists>m1 attacks. update dt pp rnd sh m = Inr (m1, attacks)
            \<and> (spawnQueue m1 = spawnQueue m \<or> spawnQueue m1 = tl (spawnQueue m))
            \<and> (\<not> waveInProgress m \<longrightarrow> \<not> waveInProgress m1 \<and> wave m1 = wave m)
            \<and> (\<forall>en \<in> set (enemyEntries m).
                  \<not> isAlive (enemy en) \<and> deathTimer en + dt < DEATH_CLEANUP_DELAY
                  \<longrightarrow> en\<lparr>deathTimer := deathTimer en + dt\<rparr> \<in> set (enemyEntries m1))))
   \<and> countActiveEnemies m = length (filter (\<lambda>en. isAlive (enemy en)) (enemyEntries m))"
proof -
  let ?m1 = "m\<lparr>elapsed := elapsed m + dt, spawnTimer := spawnTimer m + dt\<rparr>"
  have a: "enemyEntries m = []" if "maybeScheduleNewWave sh m \<noteq> m"
    using that maybeScheduleNewWave_busy [of m sh] by blast
  have b: "maybeScheduleNewWave sh m = m
       \<and> (\<exists>m1 attacks. update dt pp rnd sh m = Inr (m1, attacks)
            \<and> (spawnQueue m1 = spawnQueue m \<or> spawnQueue m1 = tl (spawnQueue m))
            \<and> (\<not> waveInProgress m \<longrightarrow> \<not> waveInProgress m1 \<and> wave m1 = wave m)
            \<and> (\<forall>en \<in> set (enemyEntries m).
                  \<not> isAlive (enemy en) \<and> deathTimer en + dt < DEATH_CLEANUP_DELAY
                  \<longrightarrow> en\<lparr>deathTimer := deathTimer en + dt\<rparr> \<in> set (enemyEntries m1)))"
    if d: "\<exists>en \<in> set (enemyEntries m). \<not> isAlive (enemy en)"
  proof -
    from d have ne: "enemyEntries m \<noteq> []" by auto
    then have s0: "maybeScheduleNewWave sh m = m"
      by (simp add: maybeScheduleNewWave_busy)
    from ne have s: "maybeScheduleNewWave sh ?m1 = ?m1"
      by (simp add: maybeScheduleNewWave_busy)
    have q: "spawnQueue (handleSpawning pp rnd ?m1) = spawnQueue m
             \<or> spawnQueue (handleSpawning pp rnd ?m1) = tl (spawnQueue m)"
      by (simp add: handleSpawning_def spawnEnemy_def Let_def)
    have w: "\<not> waveInProgress m \<longrightarrow>
               \<not> waveInProgress (handleSpawning pp rnd ?m1) \<and> wave (handleSpawning pp rnd ?m1) = wave m"
      by (simp add: handleSpawning_def)
    have k: "en\<lparr>deathTimer := deathTimer en + dt\<rparr>
               \<in> set (concat (map (\<lambda>en. fst (entry_step dt pp en)) (enemyEntries m)))"
      if "en \<in> set (enemyEntries m)" "\<not> isAlive (enemy en)" "deathTimer en + dt < DEATH_CLEANUP_DELAY" for en
      using that by (auto simp: entry_step_def intro!: bexI [of _ en])
    show ?thesis
      using s0 q w k by (simp add: update_eq s handleSpawning_entries)
  qed
  from a b countActiveEnemies_filter [of m] show ?thesis by blast
qed

lemma ex_corpse_facts:
  "enemyEntries ex_corpse = [ex_dead_entry]" "\<not> isAlive (enemy ex_dead_entry)"
  "deathTimer ex_dead_entry + 1 < DEATH_CLEANUP_DELAY"
  "\<not> waveInProgress ex_corpse" "spawnQueue ex_corpse = []" "wave ex_corpse = 1"
  "ex_dead_entry\<lparr>deathTimer := deathTimer ex_dead_entry + 1\<rparr> = ex_dead_entry\<lparr>deathTimer := 3 / 2\<rparr>"
  by (simp_all add: ex_corpse_def ex_dead_entry_def new_EnemyManager_def DEATH_CLEANUP_DELAY_def)

lemma new_EnemyManager_schedules:
  "maybeScheduleNewWave rev new_EnemyManager \<noteq> new_EnemyManager"
proof
  assume "maybeScheduleNewWave rev new_EnemyManager = new_EnemyManager"
  then have "waveInProgress (maybeScheduleNewWave rev new_EnemyManager) = waveInProgress new_EnemyManager"
    by simp
  then show False
    by (simp add: maybeScheduleNewWave_def new_EnemyManager_def enqueueWaveComposition_def Let_def)
qed

theorem no_wave_while_dead_listed_witness:
  "maybeScheduleNewWave rev new_EnemyManager \<noteq> new_EnemyManager
   \<and> enemyEntries new_EnemyManager = []
   \<and> (\<exists>en \<in> set (enemyEntries ex_corpse). \<not> isAlive (enemy en))
   \<and> maybeScheduleNewWave rev ex_corpse = ex_corpse
   \<and> \<not> waveInProgress ex_corpse
   \<and> (\<exists>m1 attacks. update 1 None (0, 0) rev ex_corpse = Inr (m1, attacks)
         \<and> spawnQueue m1 = [] \<and> \<not> waveInProgress m1 \<and> wave m1 = 1
         \<and> ex_dead_entry\<lparr>deathTimer := 3 / 2\<rparr> \<in> set (enemyEntries m1))
   \<and> countActiveEnemies ex_corpse = 0"
proof -
  have d: "\<exists>en \<in> set (enemyEntries ex_corpse). \<not> isAlive (enemy en)"
    by (simp add: ex_corpse_facts)
  from no_wave_while_dead_listed [of rev new_EnemyManager 1 None "(0, 0)"]
    new_EnemyManager_schedules
  have a: "enemyEntries new_EnemyManager = []" by blast
  from no_wave_while_dead_listed [of rev ex_corpse 1 None "(0, 0)"] d
  have b: "maybeScheduleNewWave rev ex_corpse = ex_corpse"
    and "\<exists>m1 attacks. update 1 None (0, 0) rev ex_corpse = Inr (m1, attacks)
            \<and> (spawnQueue m1 = spawnQueue ex_corpse \<or> spawnQueue m1 = tl (spawnQueue ex_corpse))
            \<and> (\<not> waveInProgress ex_corpse \<longrightarrow> \<not> waveInProgress m1 \<and> wave m1 = wave ex_corpse)
            \<and> (\<forall>en \<in> set (enemyEntries ex_corpse).
                  \<not> isAlive (enemy en) \<and> deathTimer en + 1 < DEATH_CLEANUP_DELAY
                  \<longrightarrow> en\<lparr>deathTimer := deathTimer en + 1\<rparr> \<in> set (enemyEntries m1))"
    and c: "countActiveEnemies ex_corpse
              = length (filter (\<lambda>en. isAlive (enemy en)) (enemyEntries ex_corpse))"
    by blast+
  then have u: "\<exists>m1 attacks. update 1 None (0, 0) rev ex_corpse = Inr (m1, attacks)
         \<and> spawnQueue m1 = [] \<and> \<not> waveInProgress m1 \<and> wave m1 = 1
         \<and> ex_dead_entry\<lparr>deathTimer := 3 / 2\<rparr> \<in> set (enemyEntries m1)"
    by (simp add: ex_corpse_facts)
  from c have z: "countActiveEnemies ex_corpse = 0"
    by (simp add: ex_corpse_facts)
  from new_EnemyManager_schedules a d b u z ex_corpse_facts(4) show ?thesis by blast
qed

section \<open>Restart\<close>

lemma wave_composition_1: "wave_composition (Suc 0) = replicate 7 Grunt"
  by (simp add: wave_composition_def push_times_replicate)

lemma tick_first:
  "exec_op ex_tick new_EnemyManager =
     Inr (new_EnemyManager\<lparr>elapsed := 32 / 10, spawnTimer := 0, waveInProgress := True,
            spawnQueue := replicate 6 Grunt, pendingSpawns := ex_spawned 1\<rparr>)"
  by (simp add: ex_tick_def update_eq new_EnemyManager_def maybeScheduleNewWave_def
      enqueueWaveComposition_def wave_composition_1 handleSpawning_def spawnEnemy_def
      countActiveEnemies_def getSpawnPositionRelativeTo_def getRandomSpawnPosition_def
      DEFAULT_SPAWN_INTERVAL_def DEFAULT_MAX_ACTIVE_def Let_def ex_spawned_def eval_nat_numeral)

lemma tick_mid:
  "exec_op ex_tick (new_EnemyManager\<lparr>elapsed := t, spawnTimer := 0, waveInProgress := True,
            spawnQueue := replicate (Suc (Suc n)) Grunt, pendingSpawns := ex_spawned k\<rparr>) =
     Inr (new_EnemyManager\<lparr>elapsed := t + 32 / 10, spawnTimer := 0, waveInProgress := True,
            spawnQueue := replicate (Suc n) Grunt, pendingSpawns := ex_spawned (Suc k)\<rparr>)"
  by (simp add: ex_tick_def update_eq new_EnemyManager_def maybeScheduleNewWave_def
      handleSpawning_def spawnEnemy_def
      countActiveEnemies_def getSpawnPositionRelativeTo_def getRandomSpawnPosition_def
      DEFAULT_SPAWN_INTERVAL_def DEFAULT_MAX_ACTIVE_def Let_def ex_spawned_def
      replicate_append_same)

lemma tick_last:
  "exec_op ex_tick (new_EnemyManager\<lparr>elapsed := t, spawnTimer := 0, waveInProgress := True,
            spawnQueue := replicate (Suc 0) Grunt, pendingSpawns := ex_spawned k\<rparr>) =
     Inr (new_EnemyManager\<lparr>elapsed := t + 32 / 10, spawnTimer := 0, wave := 2,
            spawnInterval := 2944 / 1000, maxActive := 9,
            pendingSpawns := ex_spawned (Suc k)\<rparr>)"
  by (simp add: ex_tick_def update_eq new_EnemyManager_def maybeScheduleNewWave_def
      handleSpawning_def spawnEnemy_def
      countActiveEnemies_def getSpawnPositionRelativeTo_def getRandomSpawnPosition_def
      DEFAULT_SPAWN_INTERVAL_def DEFAULT_MAX_ACTIVE_def Let_def ex_spawned_def
      replicate_append_same)

lemma run_first_wave:
  "run (replicate 7 ex_tick) new_EnemyManager =
     Inr (new_EnemyManager\<lparr>elapsed := 7 * (32 / 10), spawnTimer := 0, wave := 2,
            spawnInterval := 2944 / 1000, maxActive := 9, pendingSpawns := ex_spawned 7\<rparr>)"
proof -
  have n: "replicate 7 ex_tick = [ex_tick, ex_tick, ex_tick, ex_tick, ex_tick, ex_tick, ex_tick]"
    by (simp add: eval_nat_numeral)
  have six: "replicate 6 Grunt = replicate (Suc (Suc (Suc (Suc (Suc (Suc 0)))))) Grunt"
    and seven: "ex_spawned 7 = ex_spawned (Suc (Suc (Suc (Suc (Suc (Suc (Suc 0)))))))"
    and one: "ex_spawned 1 = ex_spawned (Suc 0)"
    by (simp_all add: eval_nat_numeral)
  show ?thesis
    unfolding n seven
    by (simp only: run.simps tick_first six one tick_mid tick_last sum.case) simp
qed

text \<open>
  C10. \<open>reset\<close> empties the roster and the spawn queue, sets the wave number to 1, the
  spawn timer to 0 and waveInProgress to false, and changes no other field: the spawn
  interval and maxActive keep their values. After the first wave has been spawned from
  a new manager (seven ticks of one interval each), a reset leaves the interval at 2.944
  and maxActive at 9, not at the defaults 3.2 and 8.
\<close>

theorem reset_keeps_difficulty:
  "enemyEntries (reset m) = [] \<and> spawnQueue (reset m) = [] \<and> wave (reset m) = 1
   \<and> spawnTimer (reset m) = 0 \<and> \<not> waveInProgress (reset m)
   \<and> spawnInterval (reset m) = spawnInterval m \<and> maxActive (reset m) = maxActive m
   \<and> reset m = m\<lparr>enemyEntries := [], spawnQueue := [], wave := 1, spawnTimer := 0,
                  waveInProgress := False\<rparr>
   \<and> (\<exists>m1. run (replicate 7 ex_tick) new_EnemyManager = Inr m1
         \<and> spawnInterval (reset m1) = 2944 / 1000 \<and> maxActive (reset m1) = 9
         \<and> spawnInterval (reset m1) < DEFAULT_SPAWN_INTERVAL
         \<and> DEFAULT_MAX_ACTIVE < maxActive (reset m1))"
  by (simp add: reset_def run_first_wave DEFAULT_SPAWN_INTERVAL_def DEFAULT_MAX_ACTIVE_def)

section \<open>The range of a projectile\<close>

lemma deactivate_updated:
  "i < length (projectiles ps) \<Longrightarrow>
     deactivateProjectileAtIndex i (ps\<lparr>projectiles := (projectiles ps)[i := v]\<rparr>) =
       ps\<lparr>projectiles := take i (projectiles ps) @ drop (Suc i) (projectiles ps),
          pool := pool ps @ [v\<lparr>active := False, distanceTravelled := 0, timeToLive := 0\<rparr>]\<rparr>"
  by (simp add: deactivateProjectileAtIndex_def)

lemma deactivate_same:
  "i < length (projectiles ps) \<Longrightarrow>
     deactivateProjectileAtIndex i ps =
       ps\<lparr>projectiles := take i (projectiles ps) @ drop (Suc i) (projectiles ps),
          pool := pool ps @ [(projectiles ps ! i)\<lparr>active := False, distanceTravelled := 0, timeToLive := 0\<rparr>]\<rparr>"
  by (simp add: deactivateProjectileAtIndex_def)

lemma removed_ok:
  assumes "within_range ps \<and> forward ps" "distanceTravelled v = 0"
  shows "within_range (ps\<lparr>projectiles := take i (projectiles ps) @ drop (Suc i) (projectiles ps),
                           pool := pool ps @ [v]\<rparr>)
         \<and> forward (ps\<lparr>projectiles := take i (projectiles ps) @ drop (Suc i) (projectiles ps),
                           pool := pool ps @ [v]\<rparr>)"
  using assms
  by (auto simp: within_range_def forward_def dest: in_set_takeD in_set_dropD)

lemma replaced_ok:
  assumes "within_range ps \<and> forward ps"
    "0 \<le> distanceTravelled v" "distanceTravelled v \<le> maxDistance v" "0 \<le> speed v"
  shows "within_range (ps\<lparr>projectiles := (projectiles ps)[i := v]\<rparr>)
         \<and> forward (ps\<lparr>projectiles := (projectiles ps)[i := v]\<rparr>)"
  using assms
  by (auto simp: within_range_def forward_def dest!: set_update_subset_insert [THEN subsetD])

lemma iteration_ok:
  assumes ok: "within_range ps \<and> forward ps" and i: "i < length (projectiles ps)" and dt: "0 \<le> dt"
  shows "within_range (fst (projectile_iteration dt i (ps, mgr, hits)))
         \<and> forward (fst (projectile_iteration dt i (ps, mgr, hits)))
         \<and> i \<le> length (projectiles (fst (projectile_iteration dt i (ps, mgr, hits))))"
proof -
  let ?p = "projectiles ps ! i"
  let ?p1 = "?p\<lparr>position := addScaledVector (position ?p) (direction ?p) (speed ?p * dt),
                 distanceTravelled := distanceTravelled ?p + speed ?p * dt,
                 timeToLive := timeToLive ?p - dt\<rparr>"
  from i have mem: "?p \<in> set (projectiles ps)" by simp
  with ok have p: "0 \<le> distanceTravelled ?p" "0 \<le> speed ?p"
    by (auto simp: within_range_def forward_def)
  with dt have adv: "0 \<le> distanceTravelled ?p1" "0 \<le> speed ?p1"
    by simp_all
  have len: "i \<le> length (take i (projectiles ps) @ drop (Suc i) (projectiles ps))"
    using i by simp
  note rm = removed_ok [OF ok, of _ i]
  show ?thesis
  proof (cases "active ?p")
    case False
    with rm [of "?p\<lparr>active := False, distanceTravelled := 0, timeToLive := 0\<rparr>"] len i
    show ?thesis by (simp add: deactivate_same)
  next
    case True
    show ?thesis
    proof (cases "distanceTravelled ?p1 \<ge> maxDistance ?p1 \<or> timeToLive ?p1 \<le> 0")
      case gone: True
      with True rm [of "?p1\<lparr>active := False, distanceTravelled := 0, timeToLive := 0\<rparr>"] len i
      show ?thesis by (simp add: deactivate_updated Let_def)
    next
      case stays: False
      then have "distanceTravelled ?p1 \<le> maxDistance ?p1" by simp
      from replaced_ok [OF ok adv(1) this adv(2), of i]
        rm [of "?p1\<lparr>active := False, distanceTravelled := 0, timeToLive := 0\<rparr>"] len i True stays
      show ?thesis
        by (simp add: deactivate_updated Let_def split: option.splits)
    qed
  qed
qed

lemma update_projectiles_ok:
  "within_range ps \<and> forward ps \<Longrightarrow> i \<le> length (projectiles ps) \<Longrightarrow> 0 \<le> dt \<Longrightarrow>
     \<exists>ps1 mgr1 hits1. update_projectiles dt i (ps, mgr, hits) = Inr (ps1, mgr1, hits1)
        \<and> within_range ps1 \<and> forward ps1"
proof (induction i arbitrary: ps mgr hits)
  case 0
  then show ?case by simp
next
  case (Suc i)
  obtain ps2 mgr2 hits2 where st: "projectile_iteration dt i (ps, mgr, hits) = (ps2, mgr2, hits2)"
    by (cases "projectile_iteration dt i (ps, mgr, hits)")
  from Suc.prems have i: "i < length (projectiles ps)" by simp
  from iteration_ok [OF Suc.prems(1) i Suc.prems(3), of mgr hits] st
  have "within_range ps2 \<and> forward ps2" "i \<le> length (projectiles ps2)" by simp_all
  from Suc.IH [OF this Suc.prems(3), of mgr2 hits2] i st show ?case
    by simp
qed

lemma spawn_ok:
  assumes "within_range ps \<and> forward ps" "op_nonneg (Spawn args)" "op_ranged (Spawn args)"
  shows "within_range (snd (spawnProjectile args ps)) \<and> forward (snd (spawnProjectile args ps))"
  using assms
  by (auto simp: spawnProjectile_def getProjectile_def within_range_def forward_def Let_def
      split: option.splits dest: in_set_butlastD)

lemma exec_projectile_op_ok:
  assumes "within_range ps \<and> forward ps" "op_nonneg opn" "op_ranged opn"
  shows "\<exists>ps1. exec_projectile_op opn ps = Inr ps1 \<and> within_range ps1 \<and> forward ps1"
proof (cases opn)
  case (Spawn args)
  with spawn_ok [OF assms(1), of args] assms(2,3) show ?thesis by simp
next
  case (Tick dt mgr)
  with assms(2) have "0 \<le> dt" by simp
  from update_projectiles_ok [OF assms(1) le_refl this, of mgr "[]"] Tick
  show ?thesis by (auto simp: ProjectileSystem_update_def)
qed

lemma run_projectiles_ok:
  "within_range ps \<and> forward ps \<Longrightarrow> \<forall>opn \<in> set ops. op_nonneg opn \<and> op_ranged opn \<Longrightarrow>
     \<exists>ps1. run_projectiles ops ps = Inr ps1 \<and> within_range ps1 \<and> forward ps1"
proof (induction ops arbitrary: ps)
  case Nil
  then show ?case by simp
next
  case (Cons opn ops)
  from exec_projectile_op_ok [OF Cons.prems(1), of opn] Cons.prems(2)
  obtain ps1 where "exec_projectile_op opn ps = Inr ps1" "within_range ps1 \<and> forward ps1"
    by auto
  with Cons.IH [of ps1] Cons.prems(2) show ?case by simp
qed

text \<open>
  C4, as the code has it. After any sequence of spawnProjectile and update calls from the
  constructor with non-negative deltas, non-negative speeds and non-negative maxDistance
  (an omitted maxDistance is 60), no call has thrown, every projectile in the active list
  satisfies \<open>0 \<le> distanceTravelled \<le> maxDistance\<close>, and every projectile in the pool
  has \<open>distanceTravelled = 0\<close>.
\<close>

theorem distance_within_range:
  "\<forall>opn \<in> set ops. op_nonneg opn \<and> op_ranged opn \<Longrightarrow>
     \<exists>ps. run_projectiles ops new_ProjectileSystem = Inr ps
        \<and> (\<forall>p \<in> set (projectiles ps). 0 \<le> distanceTravelled p \<and> distanceTravelled p \<le> maxDistance p)
        \<and> (\<forall>p \<in> set (pool ps). distanceTravelled p = 0)"
proof -
  assume v: "\<forall>opn \<in> set ops. op_nonneg opn \<and> op_ranged opn"
  have "within_range new_ProjectileSystem \<and> forward new_ProjectileSystem"
    by (simp add: within_range_def forward_def new_ProjectileSystem_def)
  from run_projectiles_ok [OF this v] show ?thesis
    by (auto simp: within_range_def)
qed

lemma normalize_z: "normalize (Vector3 0 0 1) = Vector3 0 0 1"
  by (simp add: normalize_def vlength_def)

lemma run_ex_ten:
  "run_projectiles [Spawn ex_ten] new_ProjectileSystem
     = Inr \<lparr> projectiles = [ex_ten_flying 0], pool = [] \<rparr>"
  "run_projectiles [Spawn ex_ten, Tick (7 / 10) None] new_ProjectileSystem
     = Inr \<lparr> projectiles = [ex_ten_flying (7 / 10)], pool = [] \<rparr>"
  "run_projectiles [Spawn ex_ten, Tick (7 / 10) None, Tick (7 / 10) None] new_ProjectileSystem
     = Inr \<lparr> projectiles = [], pool = [retire (ex_ten_flying (14 / 10))] \<rparr>"
  by (simp_all add: spawnProjectile_def getProjectile_def new_ProjectileSystem_def ex_ten_def
      ex_ten_flying_def normalize_z DEFAULT_PROJECTILE_LIFETIME_def Let_def
      ProjectileSystem_update_def addScaledVector_def deactivateProjectileAtIndex_def retire_def)

theorem distance_within_range_witness:
  "op_nonneg (Spawn ex_ten) \<and> op_ranged (Spawn ex_ten)
   \<and> op_nonneg (Tick (7 / 10) None) \<and> op_ranged (Tick (7 / 10) None)
   \<and> run_projectiles [Spawn ex_ten, Tick (7 / 10) None] new_ProjectileSystem
       = Inr \<lparr> projectiles = [ex_ten_flying (7 / 10)], pool = [] \<rparr>
   \<and> 0 \<le> distanceTravelled (ex_ten_flying (7 / 10))
   \<and> distanceTravelled (ex_ten_flying (7 / 10)) \<le> maxDistance (ex_ten_flying (7 / 10))
   \<and> run_projectiles [Spawn ex_ten, Tick (7 / 10) None, Tick (7 / 10) None] new_ProjectileSystem
       = Inr \<lparr> projectiles = [], pool = [retire (ex_ten_flying (14 / 10))] \<rparr>
   \<and> distanceTravelled (retire (ex_ten_flying (14 / 10))) = 0"
proof -
  have v: "\<forall>opn \<in> set [Spawn ex_ten, Tick (7 / 10) None, Tick (7 / 10) None]. op_nonneg opn \<and> op_ranged opn"
    "\<forall>opn \<in> set [Spawn ex_ten, Tick (7 / 10) None]. op_nonneg opn \<and> op_ranged opn"
    by (simp_all add: ex_ten_def)
  from distance_within_range [OF v(1)] distance_within_range [OF v(2)] v show ?thesis
    unfolding run_ex_ten by simp
qed

text \<open>
  C4 without the condition on maxDistance fails: a spawn with speed 10 and
  maxDistance -1 puts a projectile in the active list with distanceTravelled 0, above its
  maxDistance.
\<close>

theorem distance_within_range_counterexample:
  "op_nonneg (Spawn ex_negative)
   \<and> run_projectiles [Spawn ex_negative] new_ProjectileSystem
       = Inr \<lparr> projectiles = [ex_negative_spawned], pool = [] \<rparr>
   \<and> active ex_negative_spawned
   \<and> \<not> distanceTravelled ex_negative_spawned \<le> maxDistance ex_negative_spawned"
  by (simp add: spawnProjectile_def getProjectile_def new_ProjectileSystem_def ex_negative_def
      ex_negative_spawned_def normalize_z DEFAULT_PROJECTILE_LIFETIME_def Let_def)

section \<open>One reason per tick\<close>

lemma iteration_cases:
  assumes "i < length (projectiles ps)" "active (projectiles ps ! i)"
  shows "projectile_iteration dt i (ps, mgr, hits) =
     (let p1 = advance dt (projectiles ps ! i);
          ps1 = ps\<lparr>projectiles := (projectiles ps)[i := p1]\<rparr>
      in if expired p1 then (deactivateProjectileAtIndex i ps1, mgr, hits)
         else case mgr of
                None \<Rightarrow> (ps1, None, hits)
              | Some m \<Rightarrow>
                  (case fst (handleProjectileImpact m p1 (damage p1)) of
                     None \<Rightarrow> (ps1, Some (snd (handleProjectileImpact m p1 (damage p1))), hits)
                   | Some imp \<Rightarrow> (deactivateProjectileAtIndex i ps1,
                        Some (snd (handleProjectileImpact m p1 (damage p1))), hits @ [imp])))"
  using assms by (simp add: advance_def expired_def Let_def split: option.splits)

lemma iteration_inactive:
  "\<not> active (projectiles ps ! i) \<Longrightarrow>
     projectile_iteration dt i (ps, mgr, hits) = (deactivateProjectileAtIndex i ps, mgr, hits)"
  by simp

lemma iteration_count:
  assumes i: "i < length (projectiles ps)"
  shows "\<exists>ps2 mgr2 hits2. projectile_iteration dt i (ps, mgr, hits) = (ps2, mgr2, hits2)
     \<and> take i (projectiles ps2) = take i (projectiles ps)
     \<and> i \<le> length (projectiles ps2)
     \<and> length (pool ps2) + length hits
         = length (pool ps) + (if leaves_unhit dt (projectiles ps ! i) then 1 else 0) + length hits2
     \<and> length (projectiles ps2) + length (pool ps2) = length (projectiles ps) + length (pool ps)"
proof (cases "active (projectiles ps ! i)")
  case False
  with i have "projectile_iteration dt i (ps, mgr, hits) =
      (ps\<lparr>projectiles := take i (projectiles ps) @ drop (Suc i) (projectiles ps),
          pool := pool ps @ [retire (projectiles ps ! i)]\<rparr>, mgr, hits)"
    by (simp add: iteration_inactive deactivate_same retire_def)
  moreover from False have "leaves_unhit dt (projectiles ps ! i)"
    by (simp add: leaves_unhit_def)
  ultimately show ?thesis
    using i by auto
next
  case True
  define p1 where "p1 = advance dt (projectiles ps ! i)"
  define gone where "gone = ps\<lparr>projectiles := take i (projectiles ps) @ drop (Suc i) (projectiles ps),
                  pool := pool ps @ [retire p1]\<rparr>"
  define kept where "kept = ps\<lparr>projectiles := (projectiles ps)[i := p1]\<rparr>"
  from i have g: "take i (projectiles gone) = take i (projectiles ps)"
    "i \<le> length (projectiles gone)" "length (pool gone) = Suc (length (pool ps))"
    "length (projectiles gone) + length (pool gone) = length (projectiles ps) + length (pool ps)"
    by (auto simp: gone_def)
  from i have k: "take i (projectiles kept) = take i (projectiles ps)"
    "i \<le> length (projectiles kept)" "length (pool kept) = length (pool ps)"
    "length (projectiles kept) + length (pool kept) = length (projectiles ps) + length (pool ps)"
    by (auto simp: kept_def)
  from i have de: "deactivateProjectileAtIndex i kept = gone"
    by (simp add: deactivate_updated retire_def kept_def gone_def)
  from True have l: "leaves_unhit dt (projectiles ps ! i) = expired p1"
    by (simp add: leaves_unhit_def p1_def)
  have "projectile_iteration dt i (ps, mgr, hits) =
      (if expired p1 then (gone, mgr, hits)
       else case mgr of
              None \<Rightarrow> (kept, None, hits)
            | Some m \<Rightarrow>
                (case fst (handleProjectileImpact m p1 (damage p1)) of
                   None \<Rightarrow> (kept, Some (snd (handleProjectileImpact m p1 (damage p1))), hits)
                 | Some imp \<Rightarrow> (gone,
                      Some (snd (handleProjectileImpact m p1 (damage p1))), hits @ [imp])))"
    unfolding iteration_cases [OF i True] Let_def p1_def [symmetric] kept_def [symmetric] de ..
  then show ?thesis
    unfolding l using g k by (simp split: option.splits)
qed

lemma update_projectiles_count:
  "i \<le> length (projectiles ps) \<Longrightarrow>
     \<exists>ps1 mgr1 hits1. update_projectiles dt i (ps, mgr, hits) = Inr (ps1, mgr1, hits1)
        \<and> length (pool ps1) + length hits
            = length (pool ps) + length (filter (leaves_unhit dt) (take i (projectiles ps)))
              + length hits1
        \<and> length (projectiles ps1) + length (pool ps1) = length (projectiles ps) + length (pool ps)"
proof (induction i arbitrary: ps mgr hits)
  case 0
  then show ?case by simp
next
  case (Suc i)
  then have i: "i < length (projectiles ps)" by simp
  from iteration_count [OF i, of dt mgr hits]
  obtain ps2 mgr2 hits2 where st: "projectile_iteration dt i (ps, mgr, hits) = (ps2, mgr2, hits2)"
    and tk: "take i (projectiles ps2) = take i (projectiles ps)"
    and le: "i \<le> length (projectiles ps2)"
    and c1: "length (pool ps2) + length hits
         = length (pool ps) + (if leaves_unhit dt (projectiles ps ! i) then 1 else 0) + length hits2"
    and c2: "length (projectiles ps2) + length (pool ps2) = length (projectiles ps) + length (pool ps)"
    by blast
  from Suc.IH [OF le, of mgr2 hits2]
  obtain ps1 mgr1 hits1 where r: "update_projectiles dt i (ps2, mgr2, hits2) = Inr (ps1, mgr1, hits1)"
    and d1: "length (pool ps1) + length hits2
            = length (pool ps2) + length (filter (leaves_unhit dt) (take i (projectiles ps2)))
              + length hits1"
    and d2: "length (projectiles ps1) + length (pool ps1) = length (projectiles ps2) + length (pool ps2)"
    by blast
  have "length (filter (leaves_unhit dt) (take (Suc i) (projectiles ps)))
          = length (filter (leaves_unhit dt) (take i (projectiles ps)))
            + (if leaves_unhit dt (projectiles ps ! i) then 1 else 0)"
    using i by (simp add: take_Suc_conv_app_nth)
  with c1 c2 d1 d2 tk
  have "length (pool ps1) + length hits
            = length (pool ps) + length (filter (leaves_unhit dt) (take (Suc i) (projectiles ps)))
              + length hits1
        \<and> length (projectiles ps1) + length (pool ps1) = length (projectiles ps) + length (pool ps)"
    by simp
  with i st r show ?case by simp
qed

text \<open>
  C5. In the loop body, for an active projectile: if after the motion update it has
  expired (distance at least maxDistance, or time to live at most 0), it is deactivated
  and the enemy manager and the list of reported hits are what they were, whatever the
  impact query would have returned; if it has not expired, the query decides: without an
  impact the projectile stays, with an impact the hit is reported, the manager is the one
  the query returns and the projectile is deactivated. Over a whole tick, which does not
  throw, the pool grows by the number of projectiles found inactive or expired plus the
  number of hits reported, and no projectile is lost or duplicated: every deactivation has
  exactly one reason.
\<close>

theorem one_reason_per_tick:
  "(i < length (projectiles ps) \<and> active (projectiles ps ! i) \<and> expired (advance dt (projectiles ps ! i))
      \<longrightarrow> projectile_iteration dt i (ps, mgr, hits) =
            (deactivateProjectileAtIndex i
               (ps\<lparr>projectiles := (projectiles ps)[i := advance dt (projectiles ps ! i)]\<rparr>), mgr, hits))
   \<and> (i < length (projectiles ps) \<and> active (projectiles ps ! i)
        \<and> \<not> expired (advance dt (projectiles ps ! i)) \<and> mgr = Some m
      \<longrightarrow> (fst (handleProjectileImpact m (advance dt (projectiles ps ! i))
                   (damage (projectiles ps ! i))) = None
             \<longrightarrow> projectile_iteration dt i (ps, mgr, hits) =
                   (ps\<lparr>projectiles := (projectiles ps)[i := advance dt (projectiles ps ! i)]\<rparr>,
                    Some m, hits))
        \<and> (fst (handleProjectileImpact m (advance dt (projectiles ps ! i))
                   (damage (projectiles ps ! i))) = Some imp
             \<longrightarrow> projectile_iteration dt i (ps, mgr, hits) =
                   (deactivateProjectileAtIndex i
                      (ps\<lparr>projectiles := (projectiles ps)[i := advance dt (projectiles ps ! i)]\<rparr>),
                    Some (snd (handleProjectileImpact m (advance dt (projectiles ps ! i))
                                 (damage (projectiles ps ! i)))),
                    hits @ [imp])))
   \<and> (\<exists>ps1 mgr1 hits1. ProjectileSystem_update dt mgr ps = Inr (ps1, mgr1, hits1)
         \<and> length (pool ps1)
             = length (pool ps) + length (filter (leaves_unhit dt) (projectiles ps)) + length hits1
         \<and> length (projectiles ps1) + length (pool ps1)
             = length (projectiles ps) + length (pool ps))"
proof -
  have d: "damage (advance dt p) = damage p" for p
    by (simp add: advance_def)
  have miss: "snd (handleProjectileImpact m pr dmg) = m"
    if "fst (handleProjectileImpact m pr dmg) = None" for pr dmg
    using that by (simp add: handleProjectileImpact_def Let_def case_prod_unfold split: option.splits)
  have a: "projectile_iteration dt i (ps, mgr, hits) =
            (deactivateProjectileAtIndex i
               (ps\<lparr>projectiles := (projectiles ps)[i := advance dt (projectiles ps ! i)]\<rparr>), mgr, hits)"
    if "i < length (projectiles ps)" "active (projectiles ps ! i)"
      "expired (advance dt (projectiles ps ! i))"
    using that iteration_cases [OF that(1,2), of dt mgr hits]
    by (simp add: Let_def del: projectile_iteration.simps)
  have b: "(fst (handleProjectileImpact m (advance dt (projectiles ps ! i))
                   (damage (projectiles ps ! i))) = None
             \<longrightarrow> projectile_iteration dt i (ps, mgr, hits) =
                   (ps\<lparr>projectiles := (projectiles ps)[i := advance dt (projectiles ps ! i)]\<rparr>,
                    Some m, hits))
        \<and> (fst (handleProjectileImpact m (advance dt (projectiles ps ! i))
                   (damage (projectiles ps ! i))) = Some imp
             \<longrightarrow> projectile_iteration dt i (ps, mgr, hits) =
                   (deactivateProjectileAtIndex i
                      (ps\<lparr>projectiles := (projectiles ps)[i := advance dt (projectiles ps ! i)]\<rparr>),
                    Some (snd (handleProjectileImpact m (advance dt (projectiles ps ! i))
                                 (damage (projectiles ps ! i)))),
                    hits @ [imp]))"
    if "i < length (projectiles ps)" "active (projectiles ps ! i)"
      "\<not> expired (advance dt (projectiles ps ! i))" "mgr = Some m"
    using that iteration_cases [OF that(1,2), of dt mgr hits]
    by (simp add: Let_def d miss del: projectile_iteration.simps)
  from update_projectiles_count [where ps = ps and dt = dt and mgr = mgr and hits = "[]", OF le_refl]
  have c: "\<exists>ps1 mgr1 hits1. ProjectileSystem_update dt mgr ps = Inr (ps1, mgr1, hits1)
         \<and> length (pool ps1)
             = length (pool ps) + length (filter (leaves_unhit dt) (projectiles ps)) + length hits1
         \<and> length (projectiles ps1) + length (pool ps1)
             = length (projectiles ps) + length (pool ps)"
    by (simp add: ProjectileSystem_update_def)
  from a b c show ?thesis by blast
qed

lemma ex_last_leg_facts:
  "advance (1 / 10) (ex_last_leg d) =
     (ex_last_leg d)\<lparr>position := Vector3 (6 / 10) 0 0, distanceTravelled := d + 1,
                     timeToLive := 9 / 10\<rparr>"
  "active (ex_last_leg d)" "damage (ex_last_leg d) = 40"
  "expired (advance (1 / 10) (ex_last_leg 9))"
  "\<not> expired (advance (1 / 10) (ex_last_leg 5))"
  by (simp_all add: ex_last_leg_def advance_def addScaledVector_def expired_def)

lemma ex_last_leg_impact:
  "handleProjectileImpact ex_manager (advance (1 / 10) (ex_last_leg d)) 40
     = (Some ex_runner_hit, ex_manager_after)"
  by (simp add: ex_last_leg_facts handleProjectileImpact_def ex_manager_def ex_roster_def
      new_Enemy_def distanceToSquared_def takeDamage_def Let_def ex_runner_hit_def
      ex_manager_after_def)

lemma ex_lone_facts:
  "0 < length (projectiles (ex_lone p))" "projectiles (ex_lone p) ! 0 = p"
  "deactivateProjectileAtIndex 0 ((ex_lone p)\<lparr>projectiles := (projectiles (ex_lone p))[0 := q]\<rparr>)
     = \<lparr> projectiles = [], pool = [retire q] \<rparr>"
  "(ex_lone p)\<lparr>projectiles := (projectiles (ex_lone p))[0 := q]\<rparr> = ex_lone q"
  "projectiles (ex_lone p) \<noteq> []"
  "deactivateProjectileAtIndex 0 (ex_lone q) = \<lparr> projectiles = [], pool = [retire q] \<rparr>"
  by (simp_all add: ex_lone_def deactivateProjectileAtIndex_def retire_def)

lemma ex_miss:
  "fst (handleProjectileImpact new_EnemyManager pr dmg) = None"
  by (simp add: handleProjectileImpact_def new_EnemyManager_def)

theorem one_reason_per_tick_witness:
  "active (ex_last_leg 9) \<and> expired (advance (1 / 10) (ex_last_leg 9))
   \<and> fst (handleProjectileImpact ex_manager (advance (1 / 10) (ex_last_leg 9)) 40) = Some ex_runner_hit
   \<and> projectile_iteration (1 / 10) 0 (ex_lone (ex_last_leg 9), Some ex_manager, [])
       = (\<lparr> projectiles = [], pool = [retire (advance (1 / 10) (ex_last_leg 9))] \<rparr>,
          Some ex_manager, [])
   \<and> active (ex_last_leg 5) \<and> \<not> expired (advance (1 / 10) (ex_last_leg 5))
   \<and> fst (handleProjectileImpact ex_manager (advance (1 / 10) (ex_last_leg 5)) 40) = Some ex_runner_hit
   \<and> projectile_iteration (1 / 10) 0 (ex_lone (ex_last_leg 5), Some ex_manager, [])
       = (\<lparr> projectiles = [], pool = [retire (advance (1 / 10) (ex_last_leg 5))] \<rparr>,
          Some ex_manager_after, [ex_runner_hit])
   \<and> fst (handleProjectileImpact new_EnemyManager (advance (1 / 10) (ex_last_leg 5)) 40) = None
   \<and> projectile_iteration (1 / 10) 0 (ex_lone (ex_last_leg 5), Some new_EnemyManager, [])
       = (ex_lone (advance (1 / 10) (ex_last_leg 5)), Some new_EnemyManager, [])"
proof -
  note f = ex_last_leg_facts(2-5) ex_last_leg_impact ex_miss
  from one_reason_per_tick [where i = 0 and ps = "ex_lone (ex_last_leg 9)" and dt = "1 / 10"
      and mgr = "Some ex_manager" and hits = "[]" and m = ex_manager and imp = ex_runner_hit] f
  have a: "projectile_iteration (1 / 10) 0 (ex_lone (ex_last_leg 9), Some ex_manager, [])
       = (\<lparr> projectiles = [], pool = [retire (advance (1 / 10) (ex_last_leg 9))] \<rparr>,
          Some ex_manager, [])"
    by (simp add: ex_lone_facts del: projectile_iteration.simps)
  from one_reason_per_tick [where i = 0 and ps = "ex_lone (ex_last_leg 5)" and dt = "1 / 10"
      and mgr = "Some ex_manager" and hits = "[]" and m = ex_manager and imp = ex_runner_hit] f
  have b: "projectile_iteration (1 / 10) 0 (ex_lone (ex_last_leg 5), Some ex_manager, [])
       = (\<lparr> projectiles = [], pool = [retire (advance (1 / 10) (ex_last_leg 5))] \<rparr>,
          Some ex_manager_after, [ex_runner_hit])"
    by (simp add: ex_lone_facts del: projectile_iteration.simps)
  from one_reason_per_tick [where i = 0 and ps = "ex_lone (ex_last_leg 5)" and dt = "1 / 10"
      and mgr = "Some new_EnemyManager" and hits = "[]" and m = new_EnemyManager
      and imp = ex_runner_hit] f
  have c: "projectile_iteration (1 / 10) 0 (ex_lone (ex_last_leg 5), Some new_EnemyManager, [])
       = (ex_lone (advance (1 / 10) (ex_last_leg 5)), Some new_EnemyManager, [])"
    by (simp add: ex_lone_facts del: projectile_iteration.simps)
  from a b c f show ?thesis by simp
qed

section \<open>Ten metres at ten metres per second\<close>

text \<open>With a rounding that changes nothing, the loop in double arithmetic is the exact one.\<close>

lemma addScaledVector_fl_exact: "addScaledVector_fl (\<lambda>x. x) a v s = addScaledVector a v s"
  by (simp add: addScaledVector_fl_def addScaledVector_def)

lemma projectile_iteration_fl_exact:
  "projectile_iteration_fl (\<lambda>x. x) dt i st = projectile_iteration dt i st"
  by (cases st) (simp add: addScaledVector_fl_exact Let_def split: option.splits)

lemma update_projectiles_fl_exact:
  "update_projectiles_fl (\<lambda>x. x) dt i st = update_projectiles dt i st"
  by (induction i arbitrary: st)
    (simp_all add: projectile_iteration_fl_exact
      del: projectile_iteration_fl.simps projectile_iteration.simps)

lemma run_projectiles_fl_exact:
  "run_projectiles_fl (\<lambda>x. x) ops ps = run_projectiles ops ps"
proof (induction ops arbitrary: ps)
  case Nil
  show ?case by simp
next
  case (Cons opn ops)
  have "exec_projectile_op_fl (\<lambda>x. x) opn ps = exec_projectile_op opn ps"
    by (cases opn)
      (simp_all add: ProjectileSystem_update_fl_def ProjectileSystem_update_def
        update_projectiles_fl_exact)
  with Cons show ?case by (simp split: sum.splits)
qed

lemma no_enemies_miss:
  "enemyEntries m = [] \<Longrightarrow> handleProjectileImpact m pr dmg = (None, m)"
  by (simp add: handleProjectileImpact_def)

lemma iteration_fl_no_enemies:
  assumes "no_enemies mgr"
  shows "\<exists>pl1. projectile_iteration_fl fl dt (length xs)
            (\<lparr> projectiles = xs @ p # ys, pool = pl \<rparr>, mgr, hits) =
     (\<lparr> projectiles = xs @ flight_step_fl fl dt p @ ys, pool = pl1 \<rparr>, mgr, hits)"
proof (cases mgr)
  case None
  then show ?thesis
    by (simp add: flight_step_fl_def advance_fl_def expired_def
        deactivateProjectileAtIndex_def Let_def)
next
  case (Some m)
  with assms have "handleProjectileImpact m pr dmg = (None, m)" for pr dmg
    by (simp add: no_enemies_def no_enemies_miss)
  with Some show ?thesis
    by (simp add: flight_step_fl_def advance_fl_def expired_def
        deactivateProjectileAtIndex_def Let_def)
qed

lemma update_projectiles_fl_no_enemies:
  assumes "no_enemies mgr"
  shows "\<exists>pl1. update_projectiles_fl fl dt (length xs)
            (\<lparr> projectiles = xs @ ys, pool = pl \<rparr>, mgr, hits) =
     Inr (\<lparr> projectiles = concat (map (flight_step_fl fl dt) xs) @ ys, pool = pl1 \<rparr>, mgr, hits)"
proof (induction xs arbitrary: ys pl rule: rev_induct)
  case Nil
  show ?case by simp
next
  case (snoc p xs)
  from iteration_fl_no_enemies [OF assms, of fl dt xs p ys pl hits]
  obtain pl2 where it: "projectile_iteration_fl fl dt (length xs)
            (\<lparr> projectiles = xs @ p # ys, pool = pl \<rparr>, mgr, hits) =
     (\<lparr> projectiles = xs @ flight_step_fl fl dt p @ ys, pool = pl2 \<rparr>, mgr, hits)"
    by blast
  from snoc [of "flight_step_fl fl dt p @ ys" pl2] it
  show ?case
    by (simp del: projectile_iteration_fl.simps)
qed

lemma tick_fl_no_enemies:
  assumes "no_enemies mgr"
  shows "\<exists>ps1. exec_projectile_op_fl fl (Tick dt mgr) ps = Inr ps1
           \<and> projectiles ps1 = concat (map (flight_step_fl fl dt) (projectiles ps))"
proof (cases ps)
  case (fields xs pl)
  with update_projectiles_fl_no_enemies [OF assms, of fl dt xs "[]" pl "[]"]
  show ?thesis
    by (auto simp: ProjectileSystem_update_fl_def)
qed

lemma run_fl_no_enemies:
  assumes "no_enemies mgr"
  shows "\<exists>ps1. run_projectiles_fl fl (map (\<lambda>d. Tick d mgr) ds) ps = Inr ps1
           \<and> projectiles ps1 = fly_fl fl ds (projectiles ps)"
proof (induction ds arbitrary: ps)
  case Nil
  show ?case by simp
next
  case (Cons d ds)
  from tick_fl_no_enemies [OF assms, of fl d ps] obtain ps1
    where "exec_projectile_op_fl fl (Tick d mgr) ps = Inr ps1"
      "projectiles ps1 = concat (map (flight_step_fl fl d) (projectiles ps))" by blast
  with Cons [of ps1] show ?case by simp
qed

lemma fly_fl_append: "fly_fl fl ds (xs @ ys) = fly_fl fl ds xs @ fly_fl fl ds ys"
  by (induction ds arbitrary: xs ys) simp_all

lemma fly_fl_Nil: "fly_fl fl ds [] = []"
  by (induction ds) simp_all

lemma roundoff_range: "0 < 1 - unit_roundoff" "1 - unit_roundoff \<le> 1"
  by (simp_all add: unit_roundoff_def)

lemma on_course_step:
  assumes fl: "rounding fl" and oc: "on_course k t p" and d: "0 < d" and t: "0 \<le> t"
  shows "on_course (Suc k) (t + d) (advance_fl fl d p)"
proof -
  let ?r = "1 - unit_roundoff"
  note r = roundoff_range
  from oc have act: "active p" and sp: "speed p = 10" and mx: "maxDistance p = 10"
    and lo: "10 * t * ?r ^ (k + 1) \<le> distanceTravelled p"
    by (simp_all add: on_course_def)
  from t r(1) have "0 \<le> 10 * t * ?r ^ (k + 1)" by simp
  with lo have D: "0 \<le> distanceTravelled p" by linarith
  from d have "0 \<le> 10 * d" by simp
  with fl have tr: "10 * d * ?r \<le> fl (10 * d)"
    by (simp add: rounding_def)
  from d r(1) have "0 \<le> 10 * d * ?r" by simp
  with tr have tr0: "0 \<le> fl (10 * d)" by linarith
  with D have "0 \<le> distanceTravelled p + fl (10 * d)" by simp
  with fl have s: "(distanceTravelled p + fl (10 * d)) * ?r \<le> fl (distanceTravelled p + fl (10 * d))"
    by (simp add: rounding_def)
  from lo tr have "10 * t * ?r ^ (k + 1) + 10 * d * ?r \<le> distanceTravelled p + fl (10 * d)"
    by linarith
  with r(1) have "(10 * t * ?r ^ (k + 1) + 10 * d * ?r) * ?r
                   \<le> (distanceTravelled p + fl (10 * d)) * ?r"
    by (simp add: mult_right_mono)
  with s have b: "(10 * t * ?r ^ (k + 1) + 10 * d * ?r) * ?r
                   \<le> fl (distanceTravelled p + fl (10 * d))"
    by linarith
  from r have "?r ^ (k + 2) \<le> ?r ^ 2"
    by (intro power_decreasing) simp_all
  with d have "10 * d * ?r ^ (k + 2) \<le> 10 * d * ?r ^ 2"
    by (simp add: mult_left_mono)
  moreover have "(10 * t * ?r ^ (k + 1) + 10 * d * ?r) * ?r
                   = 10 * t * ?r ^ (k + 2) + 10 * d * ?r ^ 2"
    by (simp add: algebra_simps power2_eq_square)
  moreover have "10 * (t + d) * ?r ^ (Suc k + 1) = 10 * t * ?r ^ (k + 2) + 10 * d * ?r ^ (k + 2)"
    by (simp add: algebra_simps)
  ultimately have "10 * (t + d) * ?r ^ (Suc k + 1) \<le> fl (distanceTravelled p + fl (10 * d))"
    using b by linarith
  with act sp mx show ?thesis
    by (simp add: on_course_def advance_fl_def)
qed

lemma on_course_expires:
  assumes "on_course k t p" "1 \<le> t * (1 - unit_roundoff) ^ (k + 1)"
  shows "expired p"
proof -
  from assms(2) have "10 \<le> 10 * (t * (1 - unit_roundoff) ^ (k + 1))" by simp
  with assms(1) show ?thesis
    by (simp add: on_course_def expired_def mult.assoc)
qed

lemma fly_fl_gone:
  assumes "rounding fl" "on_course k t p" "0 \<le> t" "\<forall>d \<in> set ds. 0 < d"
    "1 \<le> j" "j \<le> length ds"
    "1 \<le> (t + sum_list (take j ds)) * (1 - unit_roundoff) ^ (k + j + 1)"
  shows "fly_fl fl ds [p] = []"
  using assms(2-)
proof (induction ds arbitrary: k t p j)
  case Nil
  then show ?case by simp
next
  case (Cons d ds)
  from Cons.prems have d: "0 < d" and ds: "\<forall>d \<in> set ds. 0 < d" by simp_all
  from Cons.prems(1) have act: "active p" by (simp add: on_course_def)
  from on_course_step [OF assms(1) Cons.prems(1) d Cons.prems(2)]
  have oc: "on_course (Suc k) (t + d) (advance_fl fl d p)" .
  from d Cons.prems(2) have t: "0 \<le> t + d" by simp
  show ?case
  proof (cases "expired (advance_fl fl d p)")
    case True
    then show ?thesis by (simp add: flight_step_fl_def fly_fl_Nil)
  next
    case False
    with act have st: "flight_step_fl fl d p = [advance_fl fl d p]"
      by (simp add: flight_step_fl_def)
    from Cons.prems(4) obtain i where j: "j = Suc i" by (cases j) simp_all
    show ?thesis
    proof (cases i)
      case 0
      with j Cons.prems(6) have "1 \<le> (t + d) * (1 - unit_roundoff) ^ (Suc k + 1)"
        by simp
      from on_course_expires [OF oc this] False show ?thesis by simp
    next
      case (Suc i')
      with j have i1: "1 \<le> i" by simp
      from j Cons.prems(5) have i2: "i \<le> length ds" by simp
      from j Cons.prems(6)
      have "1 \<le> (t + d + sum_list (take i ds)) * (1 - unit_roundoff) ^ (Suc k + i + 1)"
        by (simp add: add.assoc)
      from Cons.IH [OF oc t ds i1 i2 this] st show ?thesis by simp
    qed
  qed
qed

lemma spawn_appends:
  "projectiles (snd (spawnProjectile args ps)) = projectiles ps @ [fst (spawnProjectile args ps)]"
  by (simp add: spawnProjectile_def getProjectile_def Let_def)

lemma spawn_on_course:
  "sp_speed args = 10 \<Longrightarrow> sp_maxDistance args = Some 10 \<Longrightarrow>
     on_course 0 0 (fst (spawnProjectile args ps))"
  by (simp add: spawnProjectile_def getProjectile_def on_course_def Let_def)

text \<open>
  C8, as the code has it, in double arithmetic. With no enemies present and positive tick
  deltas, take any state of the system and compare the ticks run after spawning a
  projectile with maxDistance 10 and speed 10 with the same ticks run without the spawn;
  no tick throws. If at some tick \<open>j\<close> the accumulated tick time, taken as the exact sum
  of the first \<open>j\<close> deltas, has reached 1.0 s with the margin of the roundings made so
  far, that is \<^verbatim>\<open>sum * (1 - 2^-53)^(j + 1) >= 1\<close>, then after the ticks the
  active list is the one without the spawn: the projectile has been deactivated at that
  tick or before it. Nothing is said of sequences that never meet the condition, such as
  deltas too small to change the running sum.
\<close>

theorem ten_metres_in_one_second:
  "rounding fl \<and> sp_speed args = 10 \<and> sp_maxDistance args = Some 10
   \<and> (\<forall>d \<in> set ds. 0 < d) \<and> no_enemies mgr
   \<and> j \<le> length ds \<and> 1 \<le> sum_list (take j ds) * (1 - unit_roundoff) ^ (j + 1)
   \<Longrightarrow> \<exists>ps1 ps2. run_projectiles_fl fl (map (\<lambda>d. Tick d mgr) ds) ps = Inr ps1
     \<and> run_projectiles_fl fl (Spawn args # map (\<lambda>d. Tick d mgr) ds) ps = Inr ps2
     \<and> projectiles ps2 = projectiles ps1"
proof -
  assume a: "rounding fl \<and> sp_speed args = 10 \<and> sp_maxDistance args = Some 10
   \<and> (\<forall>d \<in> set ds. 0 < d) \<and> no_enemies mgr
   \<and> j \<le> length ds \<and> 1 \<le> sum_list (take j ds) * (1 - unit_roundoff) ^ (j + 1)"
  then have ne: "no_enemies mgr" and fl: "rounding fl" and pos: "\<forall>d \<in> set ds. 0 < d"
    and j: "j \<le> length ds"
    and reach: "1 \<le> sum_list (take j ds) * (1 - unit_roundoff) ^ (j + 1)"
    by simp_all
  have "j \<noteq> 0"
  proof
    assume "j = 0"
    with reach show False by simp
  qed
  then have j1: "1 \<le> j" by simp
  from run_fl_no_enemies [OF ne, of fl ds ps] obtain ps1
    where r1: "run_projectiles_fl fl (map (\<lambda>d. Tick d mgr) ds) ps = Inr ps1"
      "projectiles ps1 = fly_fl fl ds (projectiles ps)" by blast
  from run_fl_no_enemies [OF ne, of fl ds "snd (spawnProjectile args ps)"] obtain ps2
    where r2: "run_projectiles_fl fl (map (\<lambda>d. Tick d mgr) ds) (snd (spawnProjectile args ps)) = Inr ps2"
      "projectiles ps2 = fly_fl fl ds (projectiles (snd (spawnProjectile args ps)))" by blast
  from r1(2) r2(2)
  have split: "projectiles ps2 = projectiles ps1 @ fly_fl fl ds [fst (spawnProjectile args ps)]"
    by (simp add: spawn_appends fly_fl_append)
  from a have oc: "on_course 0 0 (fst (spawnProjectile args ps))"
    by (simp add: spawn_on_course)
  from reach have "1 \<le> (0 + sum_list (take j ds)) * (1 - unit_roundoff) ^ (0 + j + 1)"
    by simp
  with fly_fl_gone [where fl = fl and k = 0 and t = 0 and j = j and ds = ds, OF fl oc _ pos j1 j]
  have "fly_fl fl ds [fst (spawnProjectile args ps)] = []" by simp
  with split have "projectiles ps2 = projectiles ps1" by simp
  with r1(1) r2(1) show ?thesis by simp
qed

lemma rounding_fl_worst: "rounding fl_worst"
  by (simp add: rounding_def fl_worst_def)

theorem ten_metres_in_one_second_witness:
  "sp_speed ex_ten = 10 \<and> sp_maxDistance ex_ten = Some 10 \<and> (0::real) < 7 / 10
   \<and> no_enemies None \<and> (2::nat) \<le> length [7 / 10, 7 / 10 :: real]
   \<and> 1 \<le> sum_list (take 2 [7 / 10, 7 / 10 :: real]) * (1 - unit_roundoff) ^ (2 + 1)
   \<and> (\<exists>ps1 ps2.
         run_projectiles_fl fl_worst (map (\<lambda>d. Tick d None) [7 / 10, 7 / 10])
           new_ProjectileSystem = Inr ps1
       \<and> run_projectiles_fl fl_worst (Spawn ex_ten # map (\<lambda>d. Tick d None) [7 / 10, 7 / 10])
           new_ProjectileSystem = Inr ps2
       \<and> projectiles ps2 = projectiles ps1)"
proof -
  have h: "rounding fl_worst \<and> sp_speed ex_ten = 10 \<and> sp_maxDistance ex_ten = Some 10
      \<and> (\<forall>d \<in> set [7 / 10, 7 / 10 :: real]. 0 < d) \<and> no_enemies None
      \<and> (2::nat) \<le> length [7 / 10, 7 / 10 :: real]
      \<and> 1 \<le> sum_list (take 2 [7 / 10, 7 / 10 :: real]) * (1 - unit_roundoff) ^ (2 + 1)"
    by (simp add: rounding_fl_worst ex_ten_def no_enemies_def unit_roundoff_def power3_eq_cube)
  from ten_metres_in_one_second [OF h, of new_ProjectileSystem] h
  show ?thesis
    by (simp del: run_projectiles_fl.simps)
qed

text \<open>
  C8 as stated fails: the accumulated time at the deactivating tick can exceed 1.0 s.
  With two ticks of 0.7 s the projectile is still active at 0.7 s, having travelled 7 of
  its 10 units, and is deactivated by the tick that ends at 1.4 s.
\<close>

theorem ten_metres_in_one_second_counterexample:
  "sp_speed ex_ten = 10 \<and> sp_maxDistance ex_ten = Some 10 \<and> (0::real) < 7 / 10 \<and> no_enemies None
   \<and> run_projectiles [Spawn ex_ten, Tick (7 / 10) None] new_ProjectileSystem
       = Inr \<lparr> projectiles = [ex_ten_flying (7 / 10)], pool = [] \<rparr>
   \<and> active (ex_ten_flying (7 / 10))
   \<and> run_projectiles [Spawn ex_ten, Tick (7 / 10) None, Tick (7 / 10) None] new_ProjectileSystem
       = Inr \<lparr> projectiles = [], pool = [retire (ex_ten_flying (14 / 10))] \<rparr>
   \<and> (1::real) < 7 / 10 + 7 / 10"
  unfolding run_ex_ten by (simp add: ex_ten_def ex_ten_flying_def no_enemies_def)

end
